theory Spec2Isabelle
  imports Main "HOL-Library.Sublist" "HOL-Library.AList"
begin

section \<open>Strings\<close>

text \<open>
  JavaScript strings are modelled as \<^typ>\<open>string\<close>. \<open>str_includes\<close> is
  \<^verbatim>\<open>String.prototype.includes\<close>: the needle occurs as a contiguous run of the content.
\<close>

fun starts_with :: "string \<Rightarrow> string \<Rightarrow> bool" where
  "starts_with cs [] = True"
| "starts_with [] (n # ns) = False"
| "starts_with (c # cs) (n # ns) = (c = n \<and> starts_with cs ns)"

fun str_includes :: "string \<Rightarrow> string \<Rightarrow> bool" where
  "str_includes [] needle = (needle = [])"
| "str_includes (c # cs) needle = (starts_with (c # cs) needle \<or> str_includes cs needle)"

text \<open>\<^verbatim>\<open>String.prototype.endsWith\<close>.\<close>

definition ends_with :: "string \<Rightarrow> string \<Rightarrow> bool" where
  "ends_with s suf = starts_with (rev s) (rev suf)"

text \<open>Decimal rendering of an integer, as a template literal interpolates a number (a
  number of fewer than 22 digits; the numbers of the model are the integers).\<close>

definition digit_char :: "nat \<Rightarrow> char" where
  "digit_char d = char_of (48 + d)"

function show_nat :: "nat \<Rightarrow> string" where
  "show_nat n = (if n < 10 then [digit_char n] else show_nat (n div 10) @ [digit_char (n mod 10)])"
  by pat_completeness auto
termination
  by (relation "measure (\<lambda>n. n)") auto

definition show_int :: "int \<Rightarrow> string" where
  "show_int i = (if i < 0 then CHR ''-'' # show_nat (nat (- i)) else show_nat (nat i))"

section \<open>Parsed JSON values and the JavaScript operations the patcher applies to them\<close>

text \<open>
  The value \<^verbatim>\<open>jsonc.parse\<close> returns. \<open>JUndefined\<close> is JavaScript's \<^verbatim>\<open>undefined\<close>: the
  result of parsing an empty text and of reading a property that is not there. An object is
  an association list; a property is read through \<^const>\<open>map_of\<close>.
\<close>

datatype json =
    JUndefined
  | JNull
  | JBool bool
  | JNum int
  | JStr string
  | JArr "json list"
  | JObj "(string \<times> json) list"

datatype js_error =
    TypeError      \<comment> \<open>property of undefined/null, call of a non-function, spread of a non-iterable\<close>
  | ModifyError    \<comment> \<open>thrown by the JSONC library's modify/applyEdits\<close>
  | IOError        \<comment> \<open>rejected readFile/writeFile\<close>

definition bind_err :: "'e + 'a \<Rightarrow> ('a \<Rightarrow> 'e + 'b) \<Rightarrow> 'e + 'b" where
  "bind_err m f = (case m of Inl e \<Rightarrow> Inl e | Inr x \<Rightarrow> f x)"

fun nullish :: "json \<Rightarrow> bool" where
  "nullish JUndefined = True"
| "nullish JNull = True"
| "nullish _ = False"

fun truthy :: "json \<Rightarrow> bool" where
  "truthy JUndefined = False"
| "truthy JNull = False"
| "truthy (JBool b) = b"
| "truthy (JNum n) = (n \<noteq> 0)"
| "truthy (JStr s) = (s \<noteq> [])"
| "truthy (JArr xs) = True"
| "truthy (JObj kvs) = True"

text \<open>\<open>x.k\<close>: a TypeError on undefined and null, the property's value on an object, undefined
  on every other value (none of the keys read here is a built-in property).\<close>

fun get_prop :: "json \<Rightarrow> string \<Rightarrow> js_error + json" where
  "get_prop JUndefined k = Inl TypeError"
| "get_prop JNull k = Inl TypeError"
| "get_prop (JObj kvs) k = Inr (case map_of kvs k of None \<Rightarrow> JUndefined | Some v \<Rightarrow> v)"
| "get_prop _ k = Inr JUndefined"

text \<open>\<open>x?.k\<close>.\<close>

definition opt_prop :: "json \<Rightarrow> string \<Rightarrow> js_error + json" where
  "opt_prop x k = (if nullish x then Inr JUndefined else get_prop x k)"

text \<open>\<open>xs.some(f)\<close> on the elements of an array: stops at the first element for which the
  callback is true; a callback that throws ends the call.\<close>

fun js_some :: "(json \<Rightarrow> js_error + bool) \<Rightarrow> json list \<Rightarrow> js_error + bool" where
  "js_some f [] = Inr False"
| "js_some f (x # xs) =
     (case f x of Inl e \<Rightarrow> Inl e | Inr True \<Rightarrow> Inr True | Inr False \<Rightarrow> js_some f xs)"

text \<open>\<open>x.some(f)\<close> for a value that is not undefined or null: only an array has the method.\<close>

fun call_some :: "json \<Rightarrow> (json \<Rightarrow> js_error + bool) \<Rightarrow> js_error + bool" where
  "call_some (JArr xs) f = js_some f xs"
| "call_some _ f = Inl TypeError"

text \<open>\<open>x?.some(f)\<close>, read as a condition: undefined is false.\<close>

definition opt_some :: "json \<Rightarrow> (json \<Rightarrow> js_error + bool) \<Rightarrow> js_error + bool" where
  "opt_some x f = (if nullish x then Inr False else call_some x f)"

text \<open>\<open>x?.includes(s)\<close>, read as a condition: membership in an array, substring of a string.\<close>

fun opt_includes :: "json \<Rightarrow> string \<Rightarrow> js_error + bool" where
  "opt_includes JUndefined s = Inr False"
| "opt_includes JNull s = Inr False"
| "opt_includes (JArr xs) s = Inr (JStr s \<in> set xs)"
| "opt_includes (JStr t) s = Inr (str_includes t s)"
| "opt_includes _ s = Inl TypeError"

text \<open>\<open>x || []\<close>.\<close>

definition or_empty :: "json \<Rightarrow> json" where
  "or_empty x = (if truthy x then x else JArr [])"

text \<open>\<open>[...x]\<close>: the elements of an array, the characters of a string.\<close>

fun spread :: "json \<Rightarrow> js_error + json list" where
  "spread (JArr xs) = Inr xs"
| "spread (JStr s) = Inr (map (\<lambda>c. JStr [c]) s)"
| "spread _ = Inl TypeError"

section \<open>The JSONC library\<close>

text \<open>
  \<^verbatim>\<open>jsonc-parser\<close> is a third-party dependency; the patcher is parameterised by it.
  \<open>parse\<close> is \<^verbatim>\<open>jsonc.parse\<close> (fault tolerant, never throws). \<open>modify\<close> is
  \<^verbatim>\<open>jsonc.applyEdits(text, jsonc.modify(text, path, value, {}))\<close>; \<open>None\<close> when the call throws.
\<close>

record jsonc =
  parse :: "string \<Rightarrow> json"
  modify :: "string \<Rightarrow> string list \<Rightarrow> json \<Rightarrow> string option"

definition modify_or_throw :: "jsonc \<Rightarrow> string \<Rightarrow> string list \<Rightarrow> json \<Rightarrow> js_error + string" where
  "modify_or_throw lib text p v =
     (case modify lib text p v of None \<Rightarrow> Inl ModifyError | Some t \<Rightarrow> Inr t)"

section \<open>File system and console\<close>

type_synonym path = string

datatype level = Success | Error | Info | Warn | Step | Intro | Plain

text \<open>
  The part of the outside world the tool reads and writes: file contents, directories,
  the paths whose write is rejected, and the lines printed so far (the logger's level and
  the message, without colours and pictographs).
\<close>

record world =
  files :: "path \<rightharpoonup> string"
  dirs :: "path set"
  unwritable :: "path set"
  console :: "(level \<times> string) list"

definition say :: "level \<Rightarrow> string \<Rightarrow> world \<Rightarrow> world" where
  "say l msg w = w\<lparr>console := console w @ [(l, msg)]\<rparr>"

definition readFile :: "world \<Rightarrow> path \<Rightarrow> js_error + string" where
  "readFile w p = (case files w p of None \<Rightarrow> Inl IOError | Some s \<Rightarrow> Inr s)"

definition writeFile :: "world \<Rightarrow> path \<Rightarrow> string \<Rightarrow> js_error + world" where
  "writeFile w p s = (if p \<in> unwritable w then Inl IOError else Inr (w\<lparr>files := (files w)(p \<mapsto> s)\<rparr>))"

definition pathExists :: "world \<Rightarrow> path \<Rightarrow> bool" where
  "pathExists w p = (files w p \<noteq> None \<or> p \<in> dirs w)"

definition ensureDir :: "world \<Rightarrow> path \<Rightarrow> world" where
  "ensureDir w p = w\<lparr>dirs := insert p (dirs w)\<rparr>"

definition path_join :: "path \<Rightarrow> string \<Rightarrow> path" where
  "path_join a b = a @ ''/'' @ b"

definition error_message :: "js_error \<Rightarrow> string" where
  "error_message e = (case e of TypeError \<Rightarrow> ''TypeError'' | ModifyError \<Rightarrow> ''Error'' | IOError \<Rightarrow> ''IOError'')"

section \<open>Configuration patcher (primitives/queues/config.ts)\<close>

record QueueConfig =
  queueName :: string
  bindingName :: string
  maxBatchSize :: "int option"
  maxBatchTimeout :: "int option"
  maxRetries :: "int option"

definition default_to :: "int option \<Rightarrow> int \<Rightarrow> int" where
  "default_to v d = (case v of None \<Rightarrow> d | Some x \<Rightarrow> x)"

subsection \<open>TOML path\<close>

definition queue_marker :: "string \<Rightarrow> string" where
  \<open>queue_marker qn = ''queue = "'' @ qn @ ''"''\<close>

definition html_rule_marker :: string where
  \<open>html_rule_marker = ''globs = ["**/*.html"]''\<close>

definition event_store_marker :: string where
  \<open>event_store_marker = ''name = "EVENT_STORE"''\<close>

definition migration_marker :: string where
  \<open>migration_marker = ''new_classes = ["EventStore"]''\<close>

definition htmlRule_toml :: string where
  \<open>htmlRule_toml =
     ''\<newline>[[rules]]\<newline>type = "Text"\<newline>globs = ["**/*.html"]\<newline>fallthrough = true\<newline>''\<close>

definition queueConfig_toml :: "QueueConfig \<Rightarrow> string" where
  \<open>queueConfig_toml config =
     ''\<newline># Queue Configuration\<newline>[[queues.producers]]\<newline>queue = "'' @ queueName config
     @ ''"\<newline>binding = "'' @ bindingName config
     @ ''"\<newline>\<newline>[[queues.consumers]]\<newline>queue = "'' @ queueName config
     @ ''"\<newline>max_batch_size = '' @ show_int (default_to (maxBatchSize config) 4)
     @ ''\<newline>max_batch_timeout = '' @ show_int (default_to (maxBatchTimeout config) 3)
     @ ''\<newline>max_retries = '' @ show_int (default_to (maxRetries config) 3)
     @ ''\<newline>''\<close>

definition doBinding_toml :: string where
  \<open>doBinding_toml =
     ''\<newline># Durable Object for Event Storage\<newline>[[durable_objects.bindings]]\<newline>name = "EVENT_STORE"\<newline>class_name = "EventStore"\<newline>''\<close>

definition migration_toml :: string where
  \<open>migration_toml =
     ''\<newline># Durable Object Migrations\<newline>[[migrations]]\<newline>tag = "v1"\<newline>new_classes = ["EventStore"]\<newline>''\<close>

text \<open>The text the TOML path writes when the queue marker is absent.\<close>

definition toml_updated :: "string \<Rightarrow> QueueConfig \<Rightarrow> string" where
  "toml_updated content config =
     content
     @ (if \<not> str_includes content html_rule_marker then htmlRule_toml else [])
     @ queueConfig_toml config
     @ (if \<not> str_includes content event_store_marker then doBinding_toml else [])
     @ (if \<not> str_includes content migration_marker then migration_toml else [])"

definition patchTomlConfigForQueues :: "world \<Rightarrow> path \<Rightarrow> string \<Rightarrow> QueueConfig \<Rightarrow> bool \<times> world" where
  \<open>patchTomlConfigForQueues w configPath content config =
     (if str_includes content (queue_marker (queueName config))
      then (True, say Warn (''Queue "'' @ queueName config @ ''" already exists in config'') w)
      else (case writeFile w configPath (toml_updated content config) of
              Inl e \<Rightarrow> (False, say Error (''Failed to patch TOML config: '' @ error_message e) w)
            | Inr w' \<Rightarrow> (True, say Success ''Updated wrangler.toml with queue configuration'' w')))\<close>

subsection \<open>JSON/JSONC path\<close>

definition htmlRule_json :: json where
  "htmlRule_json =
     JObj [(''type'', JStr ''Text''), (''globs'', JArr [JStr ''**/*.html'']), (''fallthrough'', JBool True)]"

definition newProducer :: "QueueConfig \<Rightarrow> json" where
  "newProducer config = JObj [(''queue'', JStr (queueName config)), (''binding'', JStr (bindingName config))]"

definition newConsumer :: "QueueConfig \<Rightarrow> json" where
  "newConsumer config =
     JObj [(''queue'', JStr (queueName config)),
           (''max_batch_size'', JNum (default_to (maxBatchSize config) 4)),
           (''max_batch_timeout'', JNum (default_to (maxBatchTimeout config) 3)),
           (''max_retries'', JNum (default_to (maxRetries config) 3))]"

definition newBinding :: json where
  "newBinding = JObj [(''name'', JStr ''EVENT_STORE''), (''class_name'', JStr ''EventStore'')]"

definition newMigration :: json where
  "newMigration = JObj [(''tag'', JStr ''v1''), (''new_classes'', JArr [JStr ''EventStore''])]"

text \<open>The callbacks handed to \<open>some\<close>.\<close>

definition is_queue :: "string \<Rightarrow> json \<Rightarrow> js_error + bool" where
  \<comment> \<open>\<^verbatim>\<open>(p) => p.queue === queueName\<close>\<close>
  "is_queue qn p = bind_err (get_prop p ''queue'') (\<lambda>q. Inr (q = JStr qn))"

definition is_html_rule :: "json \<Rightarrow> js_error + bool" where
  \<comment> \<open>\<^verbatim>\<open>(r) => r.type === 'Text' && r.globs?.includes('**/*.html')\<close>\<close>
  "is_html_rule r =
     bind_err (get_prop r ''type'') (\<lambda>t.
       if t = JStr ''Text''
       then bind_err (get_prop r ''globs'') (\<lambda>g. opt_includes g ''**/*.html'')
       else Inr False)"

definition is_event_store :: "json \<Rightarrow> js_error + bool" where
  \<comment> \<open>\<^verbatim>\<open>(b) => b.name === 'EVENT_STORE'\<close>\<close>
  "is_event_store b = bind_err (get_prop b ''name'') (\<lambda>n. Inr (n = JStr ''EVENT_STORE''))"

definition names_EventStore :: "json \<Rightarrow> js_error + bool" where
  \<comment> \<open>\<^verbatim>\<open>(m) => m.new_classes?.includes('EventStore')\<close>\<close>
  "names_EventStore m = bind_err (get_prop m ''new_classes'') (\<lambda>c. opt_includes c ''EventStore'')"

text \<open>\<^verbatim>\<open>parsedConfig.queues?.producers\<close>, \<^verbatim>\<open>parsedConfig.durable_objects?.bindings\<close>, ...\<close>

definition nested_field :: "json \<Rightarrow> string \<Rightarrow> string \<Rightarrow> js_error + json" where
  "nested_field parsedConfig outer inner = bind_err (get_prop parsedConfig outer) (\<lambda>q. opt_prop q inner)"

text \<open>\<^verbatim>\<open>parsedConfig.queues?.producers?.some((p) => p.queue === queueName)\<close>\<close>

definition queue_exists :: "json \<Rightarrow> string \<Rightarrow> js_error + bool" where
  "queue_exists parsedConfig qn =
     bind_err (nested_field parsedConfig ''queues'' ''producers'') (\<lambda>ps. opt_some ps (is_queue qn))"

text \<open>
  The shape shared by the five edits: \<open>current\<close> is the sequence read from the parsed
  document (\<open>field || []\<close>); when \<open>present\<close> finds no matching entry, the text is replaced
  by \<^verbatim>\<open>applyEdits(text, modify(text, path, [...current, entry], {}))\<close>.
\<close>

definition append_entry :: "jsonc \<Rightarrow> string \<Rightarrow> string list \<Rightarrow> json \<Rightarrow> json \<Rightarrow> js_error + string" where
  "append_entry lib updatedContent p current entry =
     bind_err (spread current) (\<lambda>elems. modify_or_throw lib updatedContent p (JArr (elems @ [entry])))"

definition add_html_rule :: "jsonc \<Rightarrow> json \<Rightarrow> string \<Rightarrow> js_error + string" where
  "add_html_rule lib parsedConfig updatedContent =
     bind_err (get_prop parsedConfig ''rules'') (\<lambda>r.
       let rules = or_empty r in
       bind_err (call_some rules is_html_rule) (\<lambda>hasHtmlRule.
         if \<not> hasHtmlRule then append_entry lib updatedContent [''rules''] rules htmlRule_json
         else Inr updatedContent))"

definition add_producer :: "jsonc \<Rightarrow> json \<Rightarrow> QueueConfig \<Rightarrow> string \<Rightarrow> js_error + string" where
  "add_producer lib parsedConfig config updatedContent =
     bind_err (nested_field parsedConfig ''queues'' ''producers'') (\<lambda>ps.
       append_entry lib updatedContent [''queues'', ''producers''] (or_empty ps) (newProducer config))"

definition add_consumer :: "jsonc \<Rightarrow> json \<Rightarrow> QueueConfig \<Rightarrow> string \<Rightarrow> js_error + string" where
  "add_consumer lib parsedConfig config updatedContent =
     bind_err (nested_field parsedConfig ''queues'' ''consumers'') (\<lambda>cs.
       append_entry lib updatedContent [''queues'', ''consumers''] (or_empty cs) (newConsumer config))"

definition add_do_binding :: "jsonc \<Rightarrow> json \<Rightarrow> string \<Rightarrow> js_error + string" where
  "add_do_binding lib parsedConfig updatedContent =
     bind_err (nested_field parsedConfig ''durable_objects'' ''bindings'') (\<lambda>b.
       let doBindings = or_empty b in
       bind_err (call_some doBindings is_event_store) (\<lambda>hasEventStore.
         if \<not> hasEventStore
         then append_entry lib updatedContent [''durable_objects'', ''bindings''] doBindings newBinding
         else Inr updatedContent))"

definition add_migration :: "jsonc \<Rightarrow> json \<Rightarrow> string \<Rightarrow> js_error + string" where
  "add_migration lib parsedConfig updatedContent =
     bind_err (get_prop parsedConfig ''migrations'') (\<lambda>m.
       let migrations = or_empty m in
       bind_err (call_some migrations names_EventStore) (\<lambda>hasMigration.
         if \<not> hasMigration then append_entry lib updatedContent [''migrations''] migrations newMigration
         else Inr updatedContent))"

text \<open>
  The body of the \<^verbatim>\<open>try\<close> block up to the write: \<open>Inl\<close> when something throws, \<open>Inr None\<close>
  when the queue is already there, \<open>Inr (Some text)\<close> with the text to write otherwise.
\<close>

definition json_updated :: "jsonc \<Rightarrow> string \<Rightarrow> QueueConfig \<Rightarrow> js_error + string option" where
  "json_updated lib content config =
     (let parsedConfig = parse lib content in
      bind_err (queue_exists parsedConfig (queueName config)) (\<lambda>exists.
        if exists then Inr None
        else
          bind_err (add_html_rule lib parsedConfig content) (\<lambda>u1.
          bind_err (add_producer lib parsedConfig config u1) (\<lambda>u2.
          bind_err (add_consumer lib parsedConfig config u2) (\<lambda>u3.
          bind_err (add_do_binding lib parsedConfig u3) (\<lambda>u4.
          bind_err (add_migration lib parsedConfig u4) (\<lambda>u5.
          Inr (Some u5))))))))"

definition patchJsonConfigForQueues :: "jsonc \<Rightarrow> world \<Rightarrow> path \<Rightarrow> string \<Rightarrow> QueueConfig \<Rightarrow> bool \<times> world" where
  \<open>patchJsonConfigForQueues lib w configPath content config =
     (case json_updated lib content config of
        Inl e \<Rightarrow> (False, say Error (''Failed to patch JSON config: '' @ error_message e) w)
      | Inr None \<Rightarrow> (True, say Warn (''Queue "'' @ queueName config @ ''" already exists in config'') w)
      | Inr (Some updatedContent) \<Rightarrow>
          (case writeFile w configPath updatedContent of
             Inl e \<Rightarrow> (False, say Error (''Failed to patch JSON config: '' @ error_message e) w)
           | Inr w' \<Rightarrow> (True, say Success ''Updated wrangler config with queue configuration'' w')))\<close>

subsection \<open>Dispatch on the file extension\<close>

definition patchWranglerConfigForQueues :: "jsonc \<Rightarrow> world \<Rightarrow> path \<Rightarrow> QueueConfig \<Rightarrow> bool \<times> world" where
  "patchWranglerConfigForQueues lib w configPath config =
     (case readFile w configPath of
        Inl e \<Rightarrow> (False, say Error (''Failed to patch config: '' @ error_message e) w)
      | Inr content \<Rightarrow>
          if ends_with configPath ''.toml''
          then patchTomlConfigForQueues w configPath content config
          else patchJsonConfigForQueues lib w configPath content config)"

section \<open>What is asked of the JSONC library\<close>

text \<open>The value the patcher's property chains read at a path of a parsed document.\<close>

fun lookup :: "json \<Rightarrow> string list \<Rightarrow> json" where
  "lookup j [] = j"
| "lookup (JObj kvs) (k # ks) = (case map_of kvs k of None \<Rightarrow> JUndefined | Some c \<Rightarrow> lookup c ks)"
| "lookup _ (k # ks) = JUndefined"

text \<open>A value \<^verbatim>\<open>JSON.stringify\<close> renders and the parser reads back: no \<^verbatim>\<open>undefined\<close> inside.\<close>

fun defined_json :: "json \<Rightarrow> bool" where
  "defined_json JUndefined = False"
| "defined_json (JArr xs) = list_all defined_json xs"
| "defined_json (JObj kvs) = list_all (\<lambda>kv. defined_json (snd kv)) kvs"
| "defined_json _ = True"

text \<open>A path can be written when every value on the way that is there is an object.\<close>

fun can_set :: "json \<Rightarrow> string list \<Rightarrow> bool" where
  "can_set j [] = True"
| "can_set JUndefined (k # ks) = True"
| "can_set (JObj kvs) (k # ks) = (case map_of kvs k of None \<Rightarrow> True | Some c \<Rightarrow> can_set c ks)"
| "can_set _ (k # ks) = False"

text \<open>
  The contract of \<open>parse\<close> and \<open>modify\<close> on a set \<open>D\<close> of texts (for the real library: the
  well-formed documents with no repeated key): a text of \<open>D\<close> parses to a value,
  \<open>modify\<close> stays in \<open>D\<close>, the parser reads at the path the value that \<open>modify\<close> wrote there,
  and reads at every path that neither contains nor lies in the written one what it read
  before.
\<close>

definition lawful :: "jsonc \<Rightarrow> string set \<Rightarrow> bool" where
  "lawful lib D \<longleftrightarrow>
     (\<forall>t\<in>D. defined_json (parse lib t)) \<and>
     (\<forall>t\<in>D. \<forall>p v t'. defined_json v \<and> modify lib t p v = Some t' \<longrightarrow> t' \<in> D) \<and>
     (\<forall>t\<in>D. \<forall>p v t'. defined_json v \<and> p \<noteq> [] \<and> modify lib t p v = Some t'
         \<longrightarrow> lookup (parse lib t') p = v) \<and>
     (\<forall>t\<in>D. \<forall>p q v t'. defined_json v \<and> modify lib t p v = Some t' \<and> \<not> prefix p q \<and> \<not> prefix q p
         \<longrightarrow> lookup (parse lib t') q = lookup (parse lib t) q)"

text \<open>\<open>modify\<close> does not throw where the path can be written.\<close>

definition modify_succeeds :: "jsonc \<Rightarrow> string set \<Rightarrow> bool" where
  "modify_succeeds lib D \<longleftrightarrow>
     (\<forall>t\<in>D. \<forall>p v. defined_json v \<and> can_set (parse lib t) p \<longrightarrow> modify lib t p v \<noteq> None)"

subsection \<open>The uniqueness bounds of a configuration document\<close>

definition entries :: "json \<Rightarrow> json list" where
  "entries v = (case v of JArr xs \<Rightarrow> xs | _ \<Rightarrow> [])"


definition matching :: "(json \<Rightarrow> js_error + bool) \<Rightarrow> json \<Rightarrow> json list" where
  "matching f v = filter (\<lambda>x. f x = Inr True) (entries v)"

definition producers_of :: "json \<Rightarrow> json list" where
  "producers_of doc = entries (lookup doc [''queues'', ''producers''])"

definition consumers_of :: "json \<Rightarrow> json list" where
  "consumers_of doc = entries (lookup doc [''queues'', ''consumers''])"

definition event_store_bindings :: "json \<Rightarrow> json list" where
  "event_store_bindings doc = matching is_event_store (lookup doc [''durable_objects'', ''bindings''])"

definition EventStore_migrations :: "json \<Rightarrow> json list" where
  "EventStore_migrations doc = matching names_EventStore (lookup doc [''migrations''])"

definition html_rules :: "json \<Rightarrow> json list" where
  "html_rules doc = matching is_html_rule (lookup doc [''rules''])"


section \<open>A reference library\<close>

text \<open>
  An instance of the contract, to run the patcher on concrete documents. \<open>tree_set\<close> writes
  a value at a path of a parsed document the way \<^verbatim>\<open>modify\<close> is documented to: a property
  that is there is replaced in place, one that is not is added after the last property
  together with the objects missing on the way, and a parent that is not an object throws.
\<close>

fun wrap :: "string list \<Rightarrow> json \<Rightarrow> json" where
  "wrap [] v = v"
| "wrap (k # ks) v = JObj [(k, wrap ks v)]"

fun tree_set :: "json \<Rightarrow> string list \<Rightarrow> json \<Rightarrow> json option" where
  "tree_set j [] v = Some v"
| "tree_set JUndefined (k # ks) v = Some (wrap (k # ks) v)"
| "tree_set (JObj kvs) (k # ks) v =
     (case map_of kvs k of
        None \<Rightarrow> Some (JObj (kvs @ [(k, wrap ks v)]))
      | Some c \<Rightarrow> map_option (\<lambda>c'. JObj (AList.update k c' kvs)) (tree_set c ks v))"
| "tree_set _ (k # ks) v = None"

text \<open>
  The reference text format is a postfix notation, one instruction per character, read by
  a stack machine: \<open>n t f u 0 e a o\<close> push null, true, false, undefined, zero, the empty
  string, array and object; \<open>+\<close> and \<open>-\<close> increment and negate the number on top; \<open>c\<close>
  appends the next character to the string on top; \<open>p\<close> appends the value on top to the
  array below it; \<open>k\<close> adds the value on top under the key below it to the object below
  both.
\<close>

definition enc_str :: "string \<Rightarrow> string" where
  "enc_str s = CHR ''e'' # concat (map (\<lambda>c. [CHR ''c'', c]) s)"

fun enc :: "json \<Rightarrow> string" where
  "enc JUndefined = ''u''"
| "enc JNull = ''n''"
| "enc (JBool b) = (if b then ''t'' else ''f'')"
| "enc (JNum i) = CHR ''0'' # replicate (nat \<bar>i\<bar>) CHR ''+'' @ (if i < 0 then ''-'' else [])"
| "enc (JStr s) = enc_str s"
| "enc (JArr xs) = CHR ''a'' # concat (map (\<lambda>x. enc x @ ''p'') xs)"
| "enc (JObj kvs) = CHR ''o'' # concat (map (\<lambda>kv. enc_str (fst kv) @ enc (snd kv) @ ''k'') kvs)"

fun dec_step :: "bool \<times> json list \<Rightarrow> char \<Rightarrow> bool \<times> json list" where
  "dec_step (True, JStr s # st) c = (False, JStr (s @ [c]) # st)"
| "dec_step (True, st) c = (False, st)"
| "dec_step (False, st) c =
     (if c = CHR ''u'' then (False, JUndefined # st)
      else if c = CHR ''n'' then (False, JNull # st)
      else if c = CHR ''t'' then (False, JBool True # st)
      else if c = CHR ''f'' then (False, JBool False # st)
      else if c = CHR ''0'' then (False, JNum 0 # st)
      else if c = CHR ''+'' then (case st of JNum i # r \<Rightarrow> (False, JNum (i + 1) # r) | _ \<Rightarrow> (False, st))
      else if c = CHR ''-'' then (case st of JNum i # r \<Rightarrow> (False, JNum (- i) # r) | _ \<Rightarrow> (False, st))
      else if c = CHR ''e'' then (False, JStr [] # st)
      else if c = CHR ''c'' then (True, st)
      else if c = CHR ''a'' then (False, JArr [] # st)
      else if c = CHR ''p'' then
        (case st of v # JArr xs # r \<Rightarrow> (False, JArr (xs @ [v]) # r) | _ \<Rightarrow> (False, st))
      else if c = CHR ''o'' then (False, JObj [] # st)
      else if c = CHR ''k'' then
        (case st of v # JStr k # JObj kvs # r \<Rightarrow> (False, JObj (kvs @ [(k, v)]) # r) | _ \<Rightarrow> (False, st))
      else (False, st))"

definition dec :: "string \<Rightarrow> json" where
  "dec t = (case foldl dec_step (False, []) t of (False, [j]) \<Rightarrow> j | _ \<Rightarrow> JUndefined)"

definition ref_jsonc :: jsonc where
  "ref_jsonc = \<lparr> parse = dec, modify = (\<lambda>t p v. map_option enc (tree_set (dec t) p v)) \<rparr>"

definition ref_docs :: "string set" where
  "ref_docs = enc ` {j. defined_json j}"

section \<open>Primitives (primitives/base.ts)\<close>

text \<open>
  \<^verbatim>\<open>PrimitiveConfig\<close> is an open mapping from keys to values; the answers object of the
  prompting collaborator is one too, and a cast turns the one into the other.
\<close>

type_synonym PrimitiveConfig = "string \<rightharpoonup> string"

text \<open>A field that the primitive's configuration type declares as a string; one that is
  missing at run time reads as a template literal renders it. (The code hands a missing
  queue or binding name to the JSON/JSONC path as \<^verbatim>\<open>undefined\<close> itself, so that the entry
  written there lacks the property; here the entry has the rendered text. A name is
  missing only when its prompt was cancelled.)\<close>

definition field :: "PrimitiveConfig \<Rightarrow> string \<Rightarrow> string" where
  "field config k = (case config k of None \<Rightarrow> ''undefined'' | Some s \<Rightarrow> s)"

text \<open>\<open>!x\<close> for an optional string: undefined and the empty string.\<close>

definition falsy :: "string option \<Rightarrow> bool" where
  "falsy x = (x = None \<or> x = Some [])"

record DeploymentInfo =
  successMessage :: "string option"
  nextSteps :: "string list option"

text \<open>
  The collaborators outside the tool, as they answer during one run: the working
  directory, the JSONC library, the scaffolding and deploy child processes (by exit code),
  the prompting collaborator (its answers; a cancelled prompt leaves the answer out) and
  the template generators.
\<close>

record env =
  cwd :: path
  jsonc_lib :: jsonc
  create_cloudflare :: "(string \<times> string) list option"
    \<comment> \<open>\<^verbatim>\<open>npm create cloudflare@latest\<close>: the files of the project tree, \<open>None\<close> on a non-zero exit\<close>
  wrangler_queues_create :: bool
    \<comment> \<open>\<^verbatim>\<open>npx wrangler queues create\<close> exits with code 0\<close>
  wrangler_deploy :: "string option"
    \<comment> \<open>\<^verbatim>\<open>npx wrangler deploy\<close>: \<open>None\<close> on exit code 0, the error's message otherwise\<close>
  answers :: "string \<rightharpoonup> string"
    \<comment> \<open>the answers object of the primitive's question sequence\<close>
  answer_primitive :: "string list \<Rightarrow> string option"
    \<comment> \<open>the selection among the offered primitive ids\<close>
  answer_deploy :: "bool option"
  answer_createResource :: "bool option"
  answer_createQueue :: "bool option"
  generateQueueWorkerCode :: "string \<Rightarrow> string \<Rightarrow> string"
  generateEventStoreCode :: string
  generateDashboardHTML :: string

record Primitive =
  prim_id :: string
  name :: string
  description :: string
  supportsNewProject :: bool
  supportsExisting :: bool
  promptNew :: "env \<Rightarrow> world \<Rightarrow> PrimitiveConfig option \<times> world"
  promptExisting :: "(env \<Rightarrow> world \<Rightarrow> PrimitiveConfig option \<times> world) option"
  patchConfig :: "(env \<Rightarrow> world \<Rightarrow> path \<Rightarrow> PrimitiveConfig \<Rightarrow> bool \<times> world) option"
  generateFiles :: "env \<Rightarrow> world \<Rightarrow> path \<Rightarrow> PrimitiveConfig \<Rightarrow> (js_error \<times> world) + world"
    \<comment> \<open>\<open>Inl\<close>: the exception thrown and the world it leaves\<close>
  preDeploySteps :: "(env \<Rightarrow> world \<Rightarrow> path \<Rightarrow> PrimitiveConfig \<Rightarrow> world) option"
  getDeploymentInfo :: "(PrimitiveConfig \<Rightarrow> DeploymentInfo) option"

section \<open>Primitive registry (primitives/registry.ts)\<close>

text \<open>
  The registry is a JavaScript \<^verbatim>\<open>Map\<close>: its entries in insertion order. \<^verbatim>\<open>Map.prototype.set\<close>
  replaces the value of a key that is there and leaves the entry where it is; a new key
  goes to the end.
\<close>

type_synonym 'p registry = "(string \<times> 'p) list"

fun map_set :: "string \<Rightarrow> 'p \<Rightarrow> 'p registry \<Rightarrow> 'p registry" where
  "map_set k v [] = [(k, v)]"
| "map_set k v ((k', v') # r) = (if k' = k then (k, v) # r else (k', v') # map_set k v r)"

definition register :: "('a Primitive_scheme) \<Rightarrow> ('a Primitive_scheme) registry \<Rightarrow> ('a Primitive_scheme) registry" where
  "register primitive r = map_set (prim_id primitive) primitive r"

definition get :: "'p registry \<Rightarrow> string \<Rightarrow> 'p option" where
  "get r i = map_of r i"

definition getAll :: "'p registry \<Rightarrow> 'p list" where
  "getAll r = map snd r"

definition getForNewProject :: "('a Primitive_scheme) registry \<Rightarrow> ('a Primitive_scheme) list" where
  "getForNewProject r = filter supportsNewProject (getAll r)"

definition getForExisting :: "('a Primitive_scheme) registry \<Rightarrow> ('a Primitive_scheme) list" where
  "getForExisting r = filter supportsExisting (getAll r)"

definition has :: "'p registry \<Rightarrow> string \<Rightarrow> bool" where
  "has r i = (map_of r i \<noteq> None)"

text \<open>The registry after a sequence of \<open>register\<close> calls on the empty one.\<close>

definition registered :: "('a Primitive_scheme) list \<Rightarrow> ('a Primitive_scheme) registry" where
  "registered ps = foldl (\<lambda>r p. register p r) [] ps"

text \<open>The keys of a sequence of insertions in the order of their first insertion, and the
  value a key was last given.\<close>

fun first_seen :: "string list \<Rightarrow> string list" where
  "first_seen [] = []"
| "first_seen (k # ks) = k # filter (\<lambda>k'. k' \<noteq> k) (first_seen ks)"

definition last_registered :: "('a Primitive_scheme) list \<Rightarrow> string \<Rightarrow> ('a Primitive_scheme) option" where
  "last_registered ps i = find (\<lambda>p. prim_id p = i) (rev ps)"

section \<open>Prompts (primitives/queues/prompts.ts, lib/deploy.ts)\<close>

text \<open>\<^verbatim>\<open>promptNewQueueProject\<close>: the answers object, or null when \<open>projectName\<close> is missing.\<close>

definition promptNewQueueProject :: "env \<Rightarrow> world \<Rightarrow> PrimitiveConfig option \<times> world" where
  \<open>promptNewQueueProject e w =
     (let w1 = say Plain ''\<newline>No Worker project detected. Let's create a new one with Queues!\<newline>'' w;
          response = answers e
      in if falsy (response ''projectName'') then (None, w1) else (Some response, w1))\<close>

definition promptExistingQueueProject :: "env \<Rightarrow> world \<Rightarrow> PrimitiveConfig option \<times> world" where
  \<open>promptExistingQueueProject e w =
     (let w1 = say Plain ''\<newline>Detected a Cloudflare Worker project in this directory.\<newline>'' w;
          response = answers e
      in if falsy (response ''action'') then (None, w1) else (Some response, w1))\<close>

text \<open>\<^verbatim>\<open>promptDeploy\<close>: \<^verbatim>\<open>response.deploy ?? false\<close>.\<close>

definition promptDeploy :: "env \<Rightarrow> bool" where
  "promptDeploy e = (case answer_deploy e of None \<Rightarrow> False | Some b \<Rightarrow> b)"

section \<open>Deployment (lib/deploy.ts)\<close>

record DeployOptions =
  projectDir :: path
  deploy_queueName :: "string option"
  deploy_projectName :: string

text \<open>Creating the queue, shared by \<^verbatim>\<open>deployProject\<close> and the queue primitive's pre-deploy step.\<close>

definition create_queue :: "env \<Rightarrow> string \<Rightarrow> world \<Rightarrow> world" where
  \<open>create_queue e qn w =
     (let w1 = say Step (''Creating queue: '' @ qn @ ''...'') w
      in if wrangler_queues_create e
         then say Success (''Queue "'' @ qn @ ''" created'') w1
         else say Info ''Continuing with deployment...''
                (say Warn ''Queue creation failed (it might already exist)'' w1))\<close>

definition deployProject :: "env \<Rightarrow> world \<Rightarrow> DeployOptions \<Rightarrow> world" where
  \<open>deployProject e w options =
     (let has_queue = \<not> falsy (deploy_queueName options);
          qn = (case deploy_queueName options of None \<Rightarrow> [] | Some q \<Rightarrow> q);
          w1 = (if has_queue then create_queue e qn w else w);
          w2 = say Step ''Deploying to Cloudflare...'' w1
      in case wrangler_deploy e of
           None \<Rightarrow>
             say Plain ''View your deployment at: https://dash.cloudflare.com''
               (say Plain (if has_queue then ''\<newline>Your queue worker is live!'' else ''\<newline>Your worker is live!'')
                 (say Success (''Successfully deployed '' @ deploy_projectName options @ ''!'') w2))
         | Some message \<Rightarrow>
             (let w3 = say Error ''Deployment failed'' w2
              in if str_includes message ''not authenticated''
                 then say Info ''Run "wrangler login" to authenticate with Cloudflare'' w3
                 else
                   (let w4 = say Info (''You can deploy later by running: cd '' @ deploy_projectName options
                                        @ '' && npx wrangler deploy'') w3
                    in if has_queue
                       then say Info (''Remember to create the queue first: npx wrangler queues create '' @ qn) w4
                       else w4)))\<close>

section \<open>The queue primitive (primitives/queues/index.ts)\<close>

definition queues_promptExisting :: "env \<Rightarrow> world \<Rightarrow> PrimitiveConfig option \<times> world" where
  "queues_promptExisting e w =
     (case promptExistingQueueProject e w of
        (None, w1) \<Rightarrow> (None, w1)
      | (Some choices, w1) \<Rightarrow>
          (Some (\<lambda>k. if k = ''queueName'' \<or> k = ''bindingName'' then choices k else None), w1))"

definition queues_patchConfig :: "env \<Rightarrow> world \<Rightarrow> path \<Rightarrow> PrimitiveConfig \<Rightarrow> bool \<times> world" where
  "queues_patchConfig e w configPath config =
     patchWranglerConfigForQueues (jsonc_lib e) w configPath
       \<lparr> queueName = field config ''queueName'', bindingName = field config ''bindingName'',
         maxBatchSize = Some 4, maxBatchTimeout = Some 3, maxRetries = Some 3 \<rparr>"

definition queues_generateFiles :: "env \<Rightarrow> world \<Rightarrow> path \<Rightarrow> PrimitiveConfig \<Rightarrow> (js_error \<times> world) + world" where
  "queues_generateFiles e w dir config =
     (let srcDir = path_join dir ''src'';
          w0 = ensureDir w srcDir;
          workerCode = generateQueueWorkerCode e (field config ''queueName'') (field config ''bindingName'')
      in case writeFile w0 (path_join srcDir ''index.ts'') workerCode of
           Inl err \<Rightarrow> Inl (err, w0)
         | Inr w1 \<Rightarrow>
             (case writeFile w1 (path_join srcDir ''event-store.ts'') (generateEventStoreCode e) of
                Inl err \<Rightarrow> Inl (err, w1)
              | Inr w2 \<Rightarrow>
                  (case writeFile w2 (path_join srcDir ''dashboard.html'') (generateDashboardHTML e) of
                     Inl err \<Rightarrow> Inl (err, w2)
                   | Inr w3 \<Rightarrow>
                       Inr (say Success ''Created queue demo files (index.ts, event-store.ts, dashboard.html)'' w3))))"

definition queues_preDeploySteps :: "env \<Rightarrow> world \<Rightarrow> path \<Rightarrow> PrimitiveConfig \<Rightarrow> world" where
  "queues_preDeploySteps e w dir config = create_queue e (field config ''queueName'') w"

definition queues_getDeploymentInfo :: "PrimitiveConfig \<Rightarrow> DeploymentInfo" where
  \<open>queues_getDeploymentInfo config =
     \<lparr> successMessage = Some ''Your queue worker is live!'',
       nextSteps = Some
         [''Open http://localhost:8787 in your browser to view the live dashboard'',
          ''Click "Enqueue Message" to send messages to the queue'',
          ''Watch the real-time visualization of queue -> consumer -> events''] \<rparr>\<close>

definition QueuesPrimitive :: Primitive where
  "QueuesPrimitive =
     \<lparr> prim_id = ''queues'', name = ''Queues'', description = ''Workers Queues with interactive dashboard'',
       supportsNewProject = True, supportsExisting = True,
       promptNew = promptNewQueueProject,
       promptExisting = Some queues_promptExisting,
       patchConfig = Some queues_patchConfig,
       generateFiles = queues_generateFiles,
       preDeploySteps = Some queues_preDeploySteps,
       getDeploymentInfo = Some queues_getDeploymentInfo \<rparr>"

section \<open>The bare-project primitive (primitives/worker-only/index.ts)\<close>

definition worker_only_promptNew :: "env \<Rightarrow> world \<Rightarrow> PrimitiveConfig option \<times> world" where
  \<open>worker_only_promptNew e w =
     (let w1 = say Plain ''\<newline>Creating a basic Worker project (no primitives).\<newline>'' w;
          response = answers e
      in if falsy (response ''projectName'') then (None, w1) else (Some response, w1))\<close>

definition worker_only_getDeploymentInfo :: "PrimitiveConfig \<Rightarrow> DeploymentInfo" where
  \<open>worker_only_getDeploymentInfo config =
     \<lparr> successMessage = Some ''Your worker is live!'',
       nextSteps = Some
         [''Open your worker URL to see it in action'',
          ''Run "clementine" again to add primitives like Queues, KV, or D1''] \<rparr>\<close>

definition WorkerOnlyPrimitive :: Primitive where
  "WorkerOnlyPrimitive =
     \<lparr> prim_id = ''worker-only'', name = ''Worker only'', description = ''Basic Worker project (no primitives)'',
       supportsNewProject = True, supportsExisting = False,
       promptNew = worker_only_promptNew,
       promptExisting = None,
       patchConfig = None,
       generateFiles = (\<lambda>e w dir config. Inr w),
       preDeploySteps = None,
       getDeploymentInfo = Some worker_only_getDeploymentInfo \<rparr>"

text \<open>primitives/index.ts registers both at start-up.\<close>

definition registry :: "Primitive registry" where
  "registry = register WorkerOnlyPrimitive (register QueuesPrimitive [])"

section \<open>Project context (lib/detect.ts)\<close>

datatype config_type = Toml | Jsonc

record ProjectContext =
  isWorkerProject :: bool
  wranglerConfigPath :: "path option"
  wranglerConfigType :: "config_type option"
  entryFilePath :: "path option"
  srcDir :: "path option"
  hasPackageJson :: bool

text \<open>\<^verbatim>\<open>detectEntryFile\<close>: the first of the usual entry files that exists, with its directory.\<close>

definition possiblePaths :: "path \<Rightarrow> (path \<times> path) list" where
  "possiblePaths dir =
     map (\<lambda>f. (path_join (path_join dir ''src'') f, path_join dir ''src''))
       [''index.ts'', ''index.js'', ''worker.ts'', ''worker.js'']
     @ map (\<lambda>f. (path_join dir f, dir)) [''index.ts'', ''index.js'', ''worker.ts'', ''worker.js'']"

definition detectEntryFile :: "world \<Rightarrow> path \<Rightarrow> (path \<times> path) option" where
  "detectEntryFile w dir = find (\<lambda>(filePath, d). pathExists w filePath) (possiblePaths dir)"

definition detectProjectContext :: "env \<Rightarrow> world \<Rightarrow> ProjectContext" where
  "detectProjectContext e w =
     (let dir = cwd e;
          found =
            (if pathExists w (path_join dir ''wrangler.jsonc'') then Some (path_join dir ''wrangler.jsonc'', Jsonc)
             else if pathExists w (path_join dir ''wrangler.json'') then Some (path_join dir ''wrangler.json'', Jsonc)
             else if pathExists w (path_join dir ''wrangler.toml'') then Some (path_join dir ''wrangler.toml'', Toml)
             else None);
          entry = (if found = None then None else detectEntryFile w dir)
      in \<lparr> isWorkerProject = (found \<noteq> None),
           wranglerConfigPath = map_option fst found,
           wranglerConfigType = map_option snd found,
           entryFilePath = map_option fst entry,
           srcDir = map_option snd entry,
           hasPackageJson = pathExists w (path_join dir ''package.json'') \<rparr>)"

section \<open>Flows (lib/flows)\<close>

text \<open>
  How a flow ends: \<^verbatim>\<open>process.exit(n)\<close>, a normal return (the process then ends with exit
  code 0), or an exception that reaches the top-level handler of the CLI entry.
\<close>

datatype outcome = Exit nat | Returned | Threw js_error

definition say_all :: "string list \<Rightarrow> world \<Rightarrow> world" where
  "say_all msgs w = foldl (\<lambda>w' m. say Plain m w') w msgs"

text \<open>The scaffolding child process: on exit code 0 the project tree is on disk.\<close>

definition scaffold :: "env \<Rightarrow> path \<Rightarrow> world \<Rightarrow> world option" where
  "scaffold e dir w =
     (case create_cloudflare e of
        None \<Rightarrow> None
      | Some tree \<Rightarrow>
          Some (w\<lparr> files := foldl (\<lambda>fs (f, content). fs(path_join dir f \<mapsto> content)) (files w) tree,
                  dirs := insert dir (dirs w) \<rparr>))"

text \<open>Step 2 of the new-project flows: the configuration file of the generated project, in
  the order jsonc, json, toml.\<close>

definition find_generated_config :: "world \<Rightarrow> path \<Rightarrow> path option \<times> world" where
  "find_generated_config w dir =
     (if pathExists w (path_join dir ''wrangler.jsonc'')
      then (Some (path_join dir ''wrangler.jsonc''), say Info ''Detected wrangler.jsonc configuration'' w)
      else if pathExists w (path_join dir ''wrangler.json'')
      then (Some (path_join dir ''wrangler.json''), say Info ''Detected wrangler.json configuration'' w)
      else if pathExists w (path_join dir ''wrangler.toml'')
      then (Some (path_join dir ''wrangler.toml''), say Info ''Detected wrangler.toml configuration'' w)
      else (None, say Error ''Could not find wrangler config in the generated project'' w))"

text \<open>The patch step of the generic flows (only if the primitive has \<open>patchConfig\<close>): the
  patcher's answer and the world it leaves.\<close>

definition patch_step :: "Primitive \<Rightarrow> PrimitiveConfig \<Rightarrow> env \<Rightarrow> world \<Rightarrow> path \<Rightarrow> bool \<times> world" where
  "patch_step primitive config e w configPath =
     (case patchConfig primitive of
        None \<Rightarrow> (True, w)
      | Some patch \<Rightarrow>
          (case patch e (say Step (''Adding '' @ name primitive @ '' configuration...'') w) configPath config of
             (True, w1) \<Rightarrow> (True, w1)
           | (False, w1) \<Rightarrow> (False, say Error ''Failed to patch wrangler config'' w1)))"

subsection \<open>generic-new.ts\<close>

definition numbered :: "string list \<Rightarrow> string list" where
  "numbered steps = map (\<lambda>(i, step). ''  '' @ show_nat (i + 1) @ ''. '' @ step) (enumerate 0 steps)"

text \<open>Step 6 of the new-project flow: the deployment question and what follows it.\<close>

definition new_flow_deploy :: "Primitive \<Rightarrow> PrimitiveConfig \<Rightarrow> env \<Rightarrow> world \<Rightarrow> path \<Rightarrow> string \<Rightarrow> world" where
  \<open>new_flow_deploy primitive config e w dir project =
     (let w0 = say Plain [] w in
      if promptDeploy e then
        (let w1 = say Plain [] w0;
             w2 = (case preDeploySteps primitive of None \<Rightarrow> w1 | Some steps \<Rightarrow> steps e w1 dir config);
             w3 = deployProject e w2 \<lparr> projectDir = dir, deploy_queueName = None, deploy_projectName = project \<rparr>
         in case getDeploymentInfo primitive of
              None \<Rightarrow> w3
            | Some info \<Rightarrow>
                say Plain ''View your deployment at: https://dash.cloudflare.com''
                  (case successMessage (info config) of
                     None \<Rightarrow> w3
                   | Some m \<Rightarrow> if m = [] then w3 else say Plain (''\<newline>'' @ m) w3))
      else
        (let w1 = say_all [''\<newline>For local development:'', ''  cd '' @ project, ''  npm run dev''] w0;
             w2 = (case getDeploymentInfo primitive of
                     None \<Rightarrow> w1
                   | Some info \<Rightarrow>
                       (case nextSteps (info config) of
                          None \<Rightarrow> w1
                        | Some steps \<Rightarrow> say_all (''\<newline>Try the demo:'' # numbered steps) w1));
             w3 = say_all [''\<newline>Or use curl:'', ''  curl -X POST http://localhost:8787 -d "Hello!"'',
                           ''\<newline>To deploy later:'', ''  cd '' @ project] w2;
             w4 = (if prim_id primitive = ''queues''
                   then say Plain (''  npx wrangler queues create '' @ field config ''queueName'') w3 else w3)
         in say Plain ''  npx wrangler deploy'' w4))\<close>

definition runGenericNewFlow :: "Primitive \<Rightarrow> PrimitiveConfig \<Rightarrow> ProjectContext \<Rightarrow> env \<Rightarrow> world \<Rightarrow> outcome \<times> world" where
  \<open>runGenericNewFlow primitive config context e w =
     (if falsy (config ''projectName'') then (Exit 1, say Error ''Project name is required'' w)
      else
        let project = field config ''projectName''; dir = path_join (cwd e) project in
        if pathExists w dir then (Exit 1, say Error (''Directory "'' @ project @ ''" already exists'') w)
        else
          let w1 = say Step ''Creating Worker project with create-cloudflare...'' w in
          case scaffold e dir w1 of
            None \<Rightarrow>
              (Exit 1, say Info ''Make sure you have npm installed and internet connection''
                         (say Error ''Failed to run create-cloudflare'' w1))
          | Some w2 \<Rightarrow>
              (case find_generated_config (say Success ''Base Worker project created'' w2) dir of
                 (None, w3) \<Rightarrow> (Exit 1, w3)
               | (Some configPath, w3) \<Rightarrow>
                   (case patch_step primitive config e w3 configPath of
                      (False, w4) \<Rightarrow> (Exit 1, w4)
                    | (True, w4) \<Rightarrow>
                        (let w5 = say Step (''Generating '' @ name primitive @ '' files...'') w4 in
                         case generateFiles primitive e w5 dir config of
                           Inl (err, w6) \<Rightarrow> (Threw err, w6)
                         | Inr w6 \<Rightarrow>
                             (Returned,
                              new_flow_deploy primitive config e
                                (say Success (''Created project: '' @ project) w6) dir project)))))\<close>

subsection \<open>generic-existing.ts\<close>

definition manual_steps :: "string \<Rightarrow> string list" where
  \<open>manual_steps binding =
     [''\<newline>Manual steps required:\<newline>'',
      ''Your existing index.ts was not modified. You need to integrate the queue code:'',
      ''\<newline>1. Add to your Env interface:'',
      ''   '' @ binding @ '': Queue;'',
      ''   EVENT_STORE: DurableObjectNamespace;'',
      ''\<newline>2. Add these imports at the top of your index.ts:'',
      ''   import { EventStore } from "./event-store";'',
      ''   import dashboardHTML from "./dashboard.html";'',
      ''\<newline>3. Export the EventStore class:'',
      ''   export { EventStore };'',
      ''\<newline>4. Add dashboard route to your fetch handler:'',
      ''   if (request.method === "GET" && url.pathname === "/") {'',
      ''     return new Response(dashboardHTML, {'',
      ''       headers: { "Content-Type": "text/html" },'',
      ''     });'',
      ''   }'',
      ''\<newline>5. Add queue consumer handler to your worker:'',
      ''   async queue(batch: MessageBatch, env: Env): Promise<void> {'',
      ''     // See queue-handler.ts for full implementation'',
      ''   }'',
      ''\<newline>Reference: Check queue-handler.ts for the complete implementation'']\<close>

definition rule_line :: string where
  "rule_line = replicate 80 CHR ''=''"

text \<open>Steps 3 to 5 of the existing-project flow: the messages, the resource question and
  the next steps.\<close>

definition existing_flow_finish :: "Primitive \<Rightarrow> PrimitiveConfig \<Rightarrow> env \<Rightarrow> world \<Rightarrow> world" where
  \<open>existing_flow_finish primitive config e w =
     (let w1 = say Plain rule_line
                 (say Success (name primitive @ '' configuration added!'') (say Plain (''\<newline>'' @ rule_line) w));
          w2 = (if prim_id primitive = ''queues'' then say_all (manual_steps (field config ''bindingName'')) w1
                else w1);
          w3 = (case preDeploySteps primitive of
                  None \<Rightarrow> w2
                | Some steps \<Rightarrow>
                    (if answer_createResource e = Some True
                     then steps e (say Plain [] (say Plain [] w2)) (cwd e) config
                     else if prim_id primitive = ''queues''
                     then say Plain (''\<newline>Remember to create the queue before deploying: npx wrangler queues create ''
                                      @ field config ''queueName'') (say Plain [] w2)
                     else say Plain [] w2));
          w4 = say_all [''\<newline>Next steps:'', ''  npm run dev''] w3;
          w5 = (case getDeploymentInfo primitive of
                  None \<Rightarrow> w4
                | Some info \<Rightarrow>
                    (case nextSteps (info config) of
                       None \<Rightarrow> w4
                     | Some steps \<Rightarrow> say_all (map (\<lambda>step. ''  '' @ step) steps) w4))
      in say_all [''\<newline>When ready to deploy:'', ''  npx wrangler deploy''] w5)\<close>

definition runGenericExistingFlow :: "Primitive \<Rightarrow> PrimitiveConfig \<Rightarrow> ProjectContext \<Rightarrow> env \<Rightarrow> world \<Rightarrow> outcome \<times> world" where
  \<open>runGenericExistingFlow primitive config context e w =
     (case wranglerConfigPath context of
        None \<Rightarrow> (Exit 1, say Error ''Could not find wrangler.toml or wrangler.json in the project'' w)
      | Some configPath \<Rightarrow>
          if configPath = [] then (Exit 1, say Error ''Could not find wrangler.toml or wrangler.json in the project'' w)
          else
            (case patch_step primitive config e w configPath of
               (False, w1) \<Rightarrow> (Exit 1, w1)
             | (True, w1) \<Rightarrow>
                 (let projectRoot = cwd e;
                      w2 = ensureDir (say Step (''Creating '' @ name primitive @ '' files...'') w1)
                             (path_join projectRoot ''src'')
                  in case generateFiles primitive e w2 projectRoot config of
                       Inl (err, w3) \<Rightarrow> (Threw err, w3)
                     | Inr w3 \<Rightarrow> (Returned, existing_flow_finish primitive config e w3))))\<close>

subsection \<open>The queue-only flows of the \<open>queues\<close> subcommand (flows/new.ts, flows/existing.ts)\<close>

text \<open>A file of the existing-project flow: skipped with a warning when it is there.\<close>

definition write_unless_exists :: "world \<Rightarrow> path \<Rightarrow> string \<Rightarrow> string \<Rightarrow> string \<Rightarrow> (js_error \<times> world) + world" where
  "write_unless_exists w p content skipped created =
     (if pathExists w p then Inr (say Warn skipped w)
      else case writeFile w p content of
             Inl err \<Rightarrow> Inl (err, w)
           | Inr w1 \<Rightarrow> Inr (say Success created w1))"

definition existing_queue_files :: "env \<Rightarrow> world \<Rightarrow> string \<Rightarrow> string \<Rightarrow> (js_error \<times> world) + world" where
  "existing_queue_files e w qn binding =
     (let dir = path_join (cwd e) ''src''; w0 = ensureDir w dir in
      case write_unless_exists w0 (path_join dir ''event-store.ts'') (generateEventStoreCode e)
             ''event-store.ts already exists, skipping'' ''Created event-store.ts'' of
        Inl t \<Rightarrow> Inl t
      | Inr w1 \<Rightarrow>
          (case write_unless_exists w1 (path_join dir ''dashboard.html'') (generateDashboardHTML e)
                  ''dashboard.html already exists, skipping'' ''Created dashboard.html'' of
             Inl t \<Rightarrow> Inl t
           | Inr w2 \<Rightarrow>
               write_unless_exists w2 (path_join dir ''queue-handler.ts'') (generateQueueWorkerCode e qn binding)
                 ''queue-handler.ts already exists, skipping'' ''Created queue-handler.ts as a reference''))"

definition existing_queue_finish :: "env \<Rightarrow> world \<Rightarrow> string \<Rightarrow> string \<Rightarrow> world" where
  \<open>existing_queue_finish e w qn binding =
     (let w1 = say Plain rule_line (say Success ''Queue configuration added!'' (say Plain (''\<newline>'' @ rule_line) w));
          w2 = say Plain [] (say_all (manual_steps binding) w1);
          createQueue = (answer_createQueue e = Some True);
          w3 = (if createQueue
                then (let w' = say Step (''Creating queue: '' @ qn @ ''...'') (say Plain [] w2) in
                      if wrangler_queues_create e then say Success (''Queue "'' @ qn @ ''" created'') w'
                      else say Info (''You can create it later: npx wrangler queues create '' @ qn)
                             (say Warn ''Queue creation failed (it might already exist)'' w'))
                else say Plain (''\<newline>Remember to create the queue before deploying: npx wrangler queues create '' @ qn) w2);
          w4 = say_all [''\<newline>Next steps:'', ''  npm run dev'', ''  Open http://localhost:8787 to view the dashboard'',
                        ''\<newline>When ready to deploy:''] w3;
          w5 = (if \<not> createQueue then say Plain (''  npx wrangler queues create '' @ qn) w4 else w4)
      in say Plain ''  npx wrangler deploy'' w5)\<close>

definition queue_patch :: "env \<Rightarrow> world \<Rightarrow> path \<Rightarrow> string \<Rightarrow> string \<Rightarrow> bool \<times> world" where
  "queue_patch e w configPath qn binding =
     (case patchWranglerConfigForQueues (jsonc_lib e) (say Step ''Adding queue configuration...'' w) configPath
             \<lparr> queueName = qn, bindingName = binding,
               maxBatchSize = Some 4, maxBatchTimeout = Some 3, maxRetries = Some 3 \<rparr> of
        (True, w1) \<Rightarrow> (True, w1)
      | (False, w1) \<Rightarrow> (False, say Error ''Failed to patch wrangler config'' w1))"

definition runExistingProjectFlow :: "ProjectContext \<Rightarrow> env \<Rightarrow> world \<Rightarrow> outcome \<times> world" where
  \<open>runExistingProjectFlow context e w =
     (case promptExistingQueueProject e w of
        (None, w1) \<Rightarrow> (Exit 0, say Info ''Setup cancelled'' w1)
      | (Some choices, w1) \<Rightarrow>
          (let qn = field choices ''queueName''; binding = field choices ''bindingName'' in
           if falsy (wranglerConfigPath context)
           then (Exit 1, say Error ''Could not find wrangler.toml or wrangler.json in the project'' w1)
           else
             case queue_patch e w1 (case wranglerConfigPath context of None \<Rightarrow> [] | Some p \<Rightarrow> p) qn binding of
               (False, w2) \<Rightarrow> (Exit 1, w2)
             | (True, w2) \<Rightarrow>
                 (case existing_queue_files e (say Step ''Creating queue demo files...'' w2) qn binding of
                    Inl (err, w3) \<Rightarrow> (Threw err, w3)
                  | Inr w3 \<Rightarrow> (Returned, existing_queue_finish e w3 qn binding))))\<close>

definition new_queue_files :: "env \<Rightarrow> world \<Rightarrow> path \<Rightarrow> string \<Rightarrow> string \<Rightarrow> (js_error \<times> world) + world" where
  "new_queue_files e w dir qn binding =
     (let srcDir = path_join dir ''src'' in
      case writeFile w (path_join srcDir ''index.ts'') (generateQueueWorkerCode e qn binding) of
        Inl err \<Rightarrow> Inl (err, w)
      | Inr w1 \<Rightarrow>
          (case writeFile w1 (path_join srcDir ''event-store.ts'') (generateEventStoreCode e) of
             Inl err \<Rightarrow> Inl (err, w1)
           | Inr w2 \<Rightarrow>
               (case writeFile w2 (path_join srcDir ''dashboard.html'') (generateDashboardHTML e) of
                  Inl err \<Rightarrow> Inl (err, w2)
                | Inr w3 \<Rightarrow>
                    Inr (say Success ''Created queue demo files (index.ts, event-store.ts, dashboard.html)'' w3))))"

definition new_queue_deploy :: "env \<Rightarrow> world \<Rightarrow> path \<Rightarrow> string \<Rightarrow> string \<Rightarrow> world" where
  \<open>new_queue_deploy e w dir project qn =
     (let w0 = say Plain [] w in
      if promptDeploy e
      then deployProject e (say Plain [] w0)
             \<lparr> projectDir = dir, deploy_queueName = Some qn, deploy_projectName = project \<rparr>
      else say_all
             [''\<newline>For local development:'', ''  cd '' @ project, ''  npm run dev'', ''\<newline>Try the demo:'',
              ''  1. Open http://localhost:8787 in your browser to view the live dashboard'',
              ''  2. Click "Enqueue Message" to send messages to the queue'',
              ''  3. Watch the real-time visualization of queue -> consumer -> events'',
              ''\<newline>Or use curl:'', ''  curl -X POST http://localhost:8787 -d "Hello queue!"'',
              ''\<newline>To deploy later:'', ''  cd '' @ project, ''  npx wrangler queues create '' @ qn,
              ''  npx wrangler deploy''] w0)\<close>

definition runNewProjectFlow :: "ProjectContext \<Rightarrow> env \<Rightarrow> world \<Rightarrow> outcome \<times> world" where
  \<open>runNewProjectFlow context e w =
     (case promptNewQueueProject e w of
        (None, w0) \<Rightarrow> (Exit 0, say Info ''Setup cancelled'' w0)
      | (Some choices, w0) \<Rightarrow>
          (let project = field choices ''projectName''; qn = field choices ''queueName'';
               binding = field choices ''bindingName''; dir = path_join (cwd e) project in
           if pathExists w0 dir then (Exit 1, say Error (''Directory "'' @ project @ ''" already exists'') w0)
           else
             let w1 = say Step ''Scaffolding Worker project with create-cloudflare...'' w0 in
             case scaffold e dir w1 of
               None \<Rightarrow>
                 (Exit 1, say Info ''Make sure you have npm installed and internet connection''
                            (say Error ''Failed to run create-cloudflare'' w1))
             | Some w2 \<Rightarrow>
                 (case find_generated_config (say Success ''Base Worker project created'' w2) dir of
                    (None, w3) \<Rightarrow> (Exit 1, w3)
                  | (Some configPath, w3) \<Rightarrow>
                      (case queue_patch e w3 configPath qn binding of
                         (False, w4) \<Rightarrow> (Exit 1, w4)
                       | (True, w4) \<Rightarrow>
                           (case new_queue_files e (say Step ''Generating queue demo files...'' w4) dir qn binding of
                              Inl (err, w5) \<Rightarrow> (Threw err, w5)
                            | Inr w5 \<Rightarrow>
                                (Returned,
                                 new_queue_deploy e (say Success (''Created project: '' @ project) w5)
                                   dir project qn))))))\<close>

section \<open>Commands (commands/init.ts, commands/queues.ts) and the CLI entry\<close>

record InitOptions =
  opt_add :: bool
  opt_new :: bool

text \<open>\<^verbatim>\<open>promptPrimitiveSelection\<close>: the listing for the context is offered to the prompting
  collaborator; \<^verbatim>\<open>response.primitive || null\<close>.\<close>

definition promptPrimitiveSelection :: "Primitive registry \<Rightarrow> bool \<Rightarrow> env \<Rightarrow> world \<Rightarrow> string option \<times> world" where
  \<open>promptPrimitiveSelection reg isExistingProject e w =
     (let primitives = (if isExistingProject then getForExisting reg else getForNewProject reg) in
      if primitives = [] then (None, say Error ''No primitives available'' w)
      else
        (let w1 = say Plain (if isExistingProject then ''\<newline>Detected existing Worker project\<newline>''
                             else ''\<newline>No Worker project detected\<newline>'') w;
             response = answer_primitive e (map prim_id primitives)
         in (if falsy response then None else response, w1)))\<close>

text \<open>Prompt, then flow: \<open>null\<close> from the prompt is a cancellation.\<close>

definition prompt_then :: "(env \<Rightarrow> world \<Rightarrow> PrimitiveConfig option \<times> world) \<Rightarrow>
    (PrimitiveConfig \<Rightarrow> env \<Rightarrow> world \<Rightarrow> outcome \<times> world) \<Rightarrow> env \<Rightarrow> world \<Rightarrow> outcome \<times> world" where
  "prompt_then prompt flow e w =
     (case prompt e w of
        (None, w1) \<Rightarrow> (Exit 0, say Info ''Setup cancelled'' w1)
      | (Some config, w1) \<Rightarrow> flow config e w1)"

definition init :: "Primitive registry \<Rightarrow> InitOptions \<Rightarrow> env \<Rightarrow> world \<Rightarrow> outcome \<times> world" where
  \<open>init reg options e w =
     (if opt_add options \<and> opt_new options then (Exit 1, say Error ''Cannot use both --add and --new flags'' w)
      else
        let context = detectProjectContext e w in
        if \<not> opt_add options \<and> \<not> opt_new options then
          (case promptPrimitiveSelection reg (isWorkerProject context) e w of
             (None, w1) \<Rightarrow> (Exit 0, say Info ''Setup cancelled'' w1)
           | (Some selectedPrimitiveId, w1) \<Rightarrow>
               (case get reg selectedPrimitiveId of
                  None \<Rightarrow> (Exit 1, say Error (''Unknown primitive: '' @ selectedPrimitiveId) w1)
                | Some primitive \<Rightarrow>
                    if isWorkerProject context then
                      (if \<not> supportsExisting primitive
                       then (Exit 0, say Warn (name primitive @ '' cannot be added to existing projects.'') w1)
                       else case promptExisting primitive of
                              None \<Rightarrow> (Exit 1, say Error (name primitive @ '' does not support existing projects.'') w1)
                            | Some prompt \<Rightarrow>
                                prompt_then prompt (\<lambda>config. runGenericExistingFlow primitive config context) e w1)
                    else prompt_then (promptNew primitive) (\<lambda>config. runGenericNewFlow primitive config context) e w1))
        else
          (case get reg ''queues'' of
             None \<Rightarrow> (Exit 1, say Error ''Queues primitive not found'' w)
           | Some queuesPrimitive \<Rightarrow>
               if opt_new options
               then prompt_then (promptNew queuesPrimitive)
                      (\<lambda>config. runGenericNewFlow queuesPrimitive config context) e w
               else if opt_add options then
                 (if \<not> isWorkerProject context
                  then (Exit 1, say Error ''Not a Worker project. Use --new to create a new project.'' w)
                  else case promptExisting queuesPrimitive of
                         None \<Rightarrow> (Exit 1, say Error ''Queues does not support existing projects.'' w)
                       | Some prompt \<Rightarrow>
                           prompt_then prompt (\<lambda>config. runGenericExistingFlow queuesPrimitive config context) e w)
               else (Returned, w)))\<close>

definition initQueues :: "InitOptions \<Rightarrow> env \<Rightarrow> world \<Rightarrow> outcome \<times> world" where
  \<open>initQueues options e w =
     (if opt_add options \<and> opt_new options then (Exit 1, say Error ''Cannot use both --add and --new flags'' w)
      else
        let context = detectProjectContext e w in
        if opt_new options then runNewProjectFlow context e w
        else if opt_add options then
          (if \<not> isWorkerProject context
           then (Exit 1, say Error ''Not a Worker project. Use --new to create a new project.'' w)
           else runExistingProjectFlow context e w)
        else if isWorkerProject context
        then runExistingProjectFlow context e (say Info ''Detected existing Worker project'' w)
        else runNewProjectFlow context e (say Info ''No Worker project detected. Creating new project...'' w))\<close>

text \<open>
  The CLI entry. Its input is what \<^verbatim>\<open>parseArgs\<close> makes of the command line: the message of
  the error it throws on a command line it rejects, or the four flags and the positionals.
  The result is the exit code of the process.
\<close>

record cli_args =
  flag_add :: bool
  flag_new :: bool
  flag_help :: bool
  flag_version :: bool
  positionals :: "string list"

text \<open>The usage text; its title line is kept.\<close>

definition help_text :: string where
  "help_text = ''Clementine - Instant Cloudflare Workers primitives''"

definition main :: "Primitive registry \<Rightarrow> string + cli_args \<Rightarrow> env \<Rightarrow> world \<Rightarrow> nat \<times> world" where
  \<open>main reg argv e w =
     (case argv of
        Inl message \<Rightarrow> (1, say Error message w)
      | Inr values \<Rightarrow>
          if flag_help values then (0, say Plain help_text w)
          else if flag_version values then (0, say Plain ''clementine-cli v0.1.0'' w)
          else
            (let w1 = say Intro ''Clementine'' w;
                 options = \<lparr> opt_add = flag_add values, opt_new = flag_new values \<rparr>;
                 command = (case positionals values of [] \<Rightarrow> [] | c # cs \<Rightarrow> c);
                 (result, w2) =
                   (if command = [] then init reg options e w1
                    else if command = ''queues'' then initQueues options e w1
                    else (Exit 1, say Info ''Run "clementine --help" for usage''
                                    (say Error (''Unknown command: '' @ command) w1)))
             in case result of
                  Exit n \<Rightarrow> (n, w2)
                | Returned \<Rightarrow> (0, w2)
                | Threw err \<Rightarrow> (1, say Error (error_message err) w2)))\<close>

section \<open>Reading the tables of a TOML text\<close>



subsection \<open>Values\<close>














subsection \<open>Lines\<close>








subsection \<open>Tables\<close>












section \<open>Concrete inputs\<close>

definition demo_config :: QueueConfig where
  "demo_config = \<lparr> queueName = ''demo-queue'', bindingName = ''DEMO_QUEUE'',
                   maxBatchSize = None, maxBatchTimeout = None, maxRetries = None \<rparr>"

definition empty_world :: world where
  "empty_world = \<lparr> files = Map.empty, dirs = {}, unwritable = {}, console = [] \<rparr>"





text \<open>The minimal document \<^verbatim>\<open>{"name":"x"}\<close>, as parsed and in the reference text format.\<close>

definition minimal_doc :: json where
  "minimal_doc = JObj [(''name'', JStr ''x'')]"

definition minimal_world :: world where
  "minimal_world = empty_world\<lparr> files := [''wrangler.jsonc'' \<mapsto> enc minimal_doc] \<rparr>"

text \<open>
  A run of the tool: the working directory \<open>/app\<close>, the reference library, a scaffolding
  tool that creates the minimal configuration document and an entry file, the default
  answers of the queue prompts, and short stand-ins for the generated template texts.
\<close>

definition demo_env :: env where
  \<open>demo_env =
     \<lparr> cwd = ''/app'',
       jsonc_lib = ref_jsonc,
       create_cloudflare = Some [(''wrangler.jsonc'', enc minimal_doc), (''src/index.ts'', ''export default {};'')],
       wrangler_queues_create = True,
       wrangler_deploy = None,
       answers = [''projectName'' \<mapsto> ''my-queue-worker'', ''queueName'' \<mapsto> ''demo-queue'',
                  ''bindingName'' \<mapsto> ''DEMO_QUEUE'', ''action'' \<mapsto> ''add-minimal''],
       answer_primitive = (\<lambda>choices. Some ''queues''),
       answer_deploy = None,
       answer_createResource = None,
       answer_createQueue = None,
       generateQueueWorkerCode = (\<lambda>qn binding. ''interface Env { '' @ binding @ '': Queue; }''),
       generateEventStoreCode = ''export class EventStore {}'',
       generateDashboardHTML = ''<!DOCTYPE html>'' \<rparr>\<close>

text \<open>An existing project in \<open>/app\<close>: a configuration document and the user's entry file.\<close>

definition project_world :: world where
  \<open>project_world =
     empty_world\<lparr> files := [''/app/wrangler.toml'' \<mapsto> ''name = "x"\<newline>'',
                              ''/app/src/index.ts'' \<mapsto> ''export default { fetch() {} };''],
                   dirs := {''/app'', ''/app/src''} \<rparr>\<close>

text \<open>The same run with the deployment question answered yes and a deploy tool that fails.\<close>

definition failing_deploy_env :: env where
  "failing_deploy_env = demo_env\<lparr> answer_deploy := Some True, wrangler_deploy := Some ''exit code 1'' \<rparr>"

definition queue_answers :: PrimitiveConfig where
  "queue_answers = answers demo_env"

text \<open>Command lines.\<close>

definition add_args :: cli_args where
  "add_args = \<lparr> flag_add = True, flag_new = False, flag_help = False, flag_version = False, positionals = [] \<rparr>"

definition add_new_args :: cli_args where
  "add_new_args = add_args\<lparr> flag_new := True \<rparr>"

definition add_new_help_args :: cli_args where
  "add_new_help_args = add_new_args\<lparr> flag_help := True \<rparr>"

section \<open>The lines the TOML path appends\<close>













section \<open>Errors raised inside the patcher\<close>

text \<open>
  Some operation inside the \<^verbatim>\<open>try\<close> block of \<open>patchWranglerConfigForQueues\<close> throws: the
  read of the document; on the JSON/JSONC path an access to the parsed document or a
  \<open>modify\<close> call; the write of the updated text.
\<close>

definition patch_raises :: "jsonc \<Rightarrow> world \<Rightarrow> path \<Rightarrow> QueueConfig \<Rightarrow> bool" where
  "patch_raises lib w p config =
     (case readFile w p of
        Inl e \<Rightarrow> True
      | Inr content \<Rightarrow>
          if ends_with p ''.toml''
          then \<not> str_includes content (queue_marker (queueName config))
               \<and> isl (writeFile w p (toml_updated content config))
          else (case json_updated lib content config of
                  Inl e \<Rightarrow> True
                | Inr None \<Rightarrow> False
                | Inr (Some updatedContent) \<Rightarrow> isl (writeFile w p updatedContent)))"

text \<open>A project context whose configuration document is gone from the disk, and a
  scaffolding tool that leaves an empty configuration document.\<close>

definition stale_context :: ProjectContext where
  "stale_context =
     \<lparr> isWorkerProject = True, wranglerConfigPath = Some ''/app/wrangler.jsonc'',
       wranglerConfigType = Some Jsonc, entryFilePath = None, srcDir = None, hasPackageJson = False \<rparr>"

definition empty_config_env :: env where
  "empty_config_env = demo_env\<lparr> create_cloudflare := Some [(''wrangler.jsonc'', [])] \<rparr>"

section \<open>Properties\<close>

subsection \<open>The reference library meets the contract\<close>

lemma dec_str_aux: "foldl dec_step (False, JStr acc # st) (concat (map (\<lambda>c. [CHR ''c'', c]) s)) = (False, JStr (acc @ s) # st)"
  by (induction s arbitrary: acc) auto

lemma dec_enc_str: "foldl dec_step (False, st) (enc_str s) = (False, JStr s # st)"
  using dec_str_aux[of "[]" st s] by (simp add: enc_str_def)

lemma dec_plus: "foldl dec_step (False, JNum k # st) (replicate n CHR ''+'') = (False, JNum (k + int n) # st)"
  by (induction n arbitrary: k) (auto simp: algebra_simps)

lemma dec_enc_aux: "foldl dec_step (False, st) (enc j) = (False, j # st)"
proof (induction j arbitrary: st)
  case (JNum i)
  show ?case using dec_plus[of 0 st "nat \<bar>i\<bar>"] by (auto)
next
  case (JStr s)
  show ?case by (simp add: dec_enc_str)
next
  case (JArr xs)
  have "foldl dec_step (False, JArr acc # st) (concat (map (\<lambda>x. enc x @ ''p'') ys)) = (False, JArr (acc @ ys) # st)" if "set ys \<subseteq> set xs" for acc ys
    using that
  proof (induction ys arbitrary: acc)
    case Nil show ?case by simp
  next
    case (Cons y ys)
    then have "y \<in> set xs" by simp
    from JArr[OF this] Cons show ?case by simp
  qed
  from this[of xs "[]"] show ?case by simp
next
  case (JObj kvs)
  have "foldl dec_step (False, JObj acc # st) (concat (map (\<lambda>kv. enc_str (fst kv) @ enc (snd kv) @ ''k'') ys)) = (False, JObj (acc @ ys) # st)" if "set ys \<subseteq> set kvs" for acc ys
    using that
  proof (induction ys arbitrary: acc)
    case Nil show ?case by simp
  next
    case (Cons y ys)
    obtain k v where y: "y = (k, v)" by (cases y)
    with Cons have "(k, v) \<in> set kvs" by simp
    then have IH: "\<And>st. foldl dec_step (False, st) (enc v) = (False, v # st)"
      using JObj by fastforce
    show ?case using Cons y by (simp add: dec_enc_str IH)
  qed
  from this[of kvs "[]"] show ?case by simp
qed auto

lemma dec_enc: "dec (enc j) = j"
  using dec_enc_aux[of "[]" j] by (simp add: dec_def)

lemma lookup_wrap: "lookup (wrap p v) p = v"
  by (induction p) auto

lemma lookup_non_object: "q \<noteq> [] \<Longrightarrow> \<forall>kvs. j \<noteq> JObj kvs \<Longrightarrow> lookup j q = JUndefined"
  by (cases q; cases j) auto

lemma lookup_wrap_apart: "\<not> prefix p q \<Longrightarrow> \<not> prefix q p \<Longrightarrow> lookup (wrap p v) q = JUndefined"
proof (induction p arbitrary: q)
  case Nil then show ?case by simp
next
  case (Cons k ks)
  then obtain k' qs where q: "q = k' # qs" by (cases q) auto
  show ?case using Cons q by (cases "k = k'") auto
qed

lemma map_of_update_other: "k \<noteq> k' \<Longrightarrow> map_of (AList.update k c kvs) k' = map_of kvs k'"
  by (simp add: update_conv')

lemma map_of_snoc_new: "map_of kvs k = None \<Longrightarrow> map_of (kvs @ [(k, x)]) k = Some x"
  by (simp add: map_add_def)

lemma map_of_snoc_other: "k \<noteq> k' \<Longrightarrow> map_of (kvs @ [(k, x)]) k' = map_of kvs k'"
  by (simp add: map_add_def split: option.splits)

lemma tree_get_set: "tree_set j p v = Some j' \<Longrightarrow> lookup j' p = v"
proof (induction j p v arbitrary: j' rule: tree_set.induct)
  case (3 kvs k ks v)
  show ?case
  proof (cases "map_of kvs k")
    case None
    then show ?thesis using 3 by (auto simp: map_of_snoc_new lookup_wrap simp del: map_of_append)
  next
    case (Some c)
    then obtain c' where "tree_set c ks v = Some c'" "j' = JObj (AList.update k c' kvs)"
      using 3 by auto
    then show ?thesis using "3.IH"[OF Some] by (simp add: update_conv')
  qed
qed (auto simp: lookup_wrap)

lemma tree_frame:
  "tree_set j p v = Some j' \<Longrightarrow> \<not> prefix p q \<Longrightarrow> \<not> prefix q p \<Longrightarrow> lookup j' q = lookup j q"
proof (induction j p v arbitrary: j' q rule: tree_set.induct)
  case (1 j v)
  then show ?case by simp
next
  case (2 k ks v)
  then have "q \<noteq> []" by auto
  then have "lookup JUndefined q = JUndefined" by (simp add: lookup_non_object)
  moreover have "lookup (wrap (k # ks) v) q = JUndefined"
    using 2 by (intro lookup_wrap_apart) auto
  ultimately show ?case using 2 by simp
next
  case (3 kvs k ks v)
  then obtain k' qs where q: "q = k' # qs" by (cases q) auto
  show ?case
  proof (cases "map_of kvs k")
    case None
    then have j': "j' = JObj (kvs @ [(k, wrap ks v)])" using 3 by simp
    show ?thesis
    proof (cases "k = k'")
      case True
      then have "\<not> prefix ks qs" "\<not> prefix qs ks" using 3 q by auto
      then have "lookup (wrap ks v) qs = JUndefined" by (rule lookup_wrap_apart)
      then show ?thesis using None True j' q by (simp add: map_of_snoc_new del: map_of_append)
    next
      case False
      then show ?thesis using j' q by (simp add: map_of_snoc_other del: map_of_append)
    qed
  next
    case (Some c)
    then obtain c' where c': "tree_set c ks v = Some c'" and j': "j' = JObj (AList.update k c' kvs)"
      using 3 by auto
    show ?thesis
    proof (cases "k = k'")
      case True
      then have "\<not> prefix ks qs" "\<not> prefix qs ks" using 3 q by auto
      from "3.IH"[OF Some c' this] show ?thesis using True j' q Some by (simp add: update_conv')
    next
      case False
      then show ?thesis using j' q by (simp add: update_conv')
    qed
  qed
qed auto

lemma tree_can_set: "can_set j p \<Longrightarrow> tree_set j p v \<noteq> None"
  by (induction j p v rule: tree_set.induct) (auto split: option.splits)

lemma defined_wrap: "defined_json v \<Longrightarrow> defined_json (wrap p v)"
  by (induction p) auto

lemma defined_update:
  "list_all (\<lambda>kv. defined_json (snd kv)) kvs \<Longrightarrow> defined_json c \<Longrightarrow>
   list_all (\<lambda>kv. defined_json (snd kv)) (AList.update k c kvs)"
  by (induction kvs) auto

lemma defined_child: "list_all (\<lambda>kv. defined_json (snd kv)) kvs \<Longrightarrow> map_of kvs k = Some c \<Longrightarrow> defined_json c"
  by (induction kvs) (auto split: if_splits)

lemma tree_set_defined:
  "tree_set j p v = Some j' \<Longrightarrow> defined_json j \<Longrightarrow> defined_json v \<Longrightarrow> defined_json j'"
proof (induction j p v arbitrary: j' rule: tree_set.induct)
  case (3 kvs k ks v)
  show ?case
  proof (cases "map_of kvs k")
    case None
    then show ?thesis using 3 by (auto simp: defined_wrap)
  next
    case (Some c)
    then obtain c' where c': "tree_set c ks v = Some c'" "j' = JObj (AList.update k c' kvs)"
      using 3 by auto
    have "defined_json c" using 3 Some by (auto dest: defined_child)
    then have "defined_json c'" using "3.IH"[OF Some c'(1)] 3 by simp
    then show ?thesis using c' 3 by (simp add: defined_update)
  qed
qed (auto simp: defined_wrap)

lemma ref_lawful: "lawful ref_jsonc ref_docs"
  unfolding lawful_def ref_jsonc_def ref_docs_def
  by (auto simp: dec_enc tree_get_set tree_frame tree_set_defined)

lemma ref_modify_succeeds: "modify_succeeds ref_jsonc ref_docs"
  unfolding modify_succeeds_def ref_jsonc_def ref_docs_def
  by (auto simp: dec_enc tree_can_set)

subsection \<open>What one run of the JSON path does to the five sequences\<close>

lemma bind_err_Inr: "bind_err m f = Inr y \<longleftrightarrow> (\<exists>x. m = Inr x \<and> f x = Inr y)"
  by (cases m) (auto simp: bind_err_def)

lemma get_prop_lookup: "get_prop j k = Inr x \<Longrightarrow> x = lookup j [k]"
  by (cases j) (auto split: option.splits)

lemma opt_prop_lookup: "opt_prop j k = Inr x \<Longrightarrow> x = lookup j [k]"
  by (cases j) (auto simp: opt_prop_def split: option.splits)

lemma lookup_Cons: "lookup j (k # ks) = lookup (lookup j [k]) ks"
  by (cases j; cases ks) (auto split: option.splits)

lemma nested_field_lookup: "nested_field j a b = Inr x \<Longrightarrow> x = lookup j [a, b]"
  unfolding nested_field_def bind_err_Inr
  using get_prop_lookup opt_prop_lookup lookup_Cons[of j a "[b]"] by metis

lemma lookup_defined_root: "lookup j (k # ks) \<noteq> JUndefined \<Longrightarrow> \<exists>kvs. j = JObj kvs"
  by (cases j) auto

lemma get_prop_object: "get_prop (JObj kvs) k = Inr (lookup (JObj kvs) [k])"
  by (auto split: option.splits)

lemma nested_field_found:
  assumes "lookup j [a, b] \<noteq> JUndefined"
  shows "nested_field j a b = Inr (lookup j [a, b])"
proof -
  obtain kvs where j: "j = JObj kvs" using assms lookup_defined_root by blast
  have "lookup (lookup j [a]) [b] \<noteq> JUndefined" using assms lookup_Cons[of j a "[b]"] by simp
  then obtain kvs' where c: "lookup j [a] = JObj kvs'" using lookup_defined_root by blast
  have "get_prop j a = Inr (JObj kvs')" using j c get_prop_object by simp
  moreover have "opt_prop (JObj kvs') b = Inr (lookup (JObj kvs') [b])"
    by (simp add: opt_prop_def split: option.splits)
  ultimately show ?thesis using c lookup_Cons[of j a "[b]"] by (simp add: nested_field_def bind_err_def)
qed

lemma defined_lookup: "defined_json j \<Longrightarrow> lookup j p = JUndefined \<or> defined_json (lookup j p)"
proof (induction j p rule: lookup.induct)
  case (2 kvs k ks)
  then show ?case by (auto split: option.splits dest: defined_child)
qed auto

lemma defined_or_empty: "x = JUndefined \<or> defined_json x \<Longrightarrow> defined_json (or_empty x)"
  by (auto simp: or_empty_def)

lemma spread_defined: "defined_json x \<Longrightarrow> spread x = Inr elems \<Longrightarrow> list_all defined_json elems"
  by (cases x) (auto simp: list_all_iff)

lemma js_some_append: "js_some f xs = Inr False \<Longrightarrow> js_some f (xs @ ys) = js_some f ys"
  by (induction xs) (auto split: sum.splits bool.splits)



lemma call_some_array: "call_some x f = Inr b \<Longrightarrow> \<exists>xs. x = JArr xs \<and> js_some f xs = Inr b"
  by (cases x) auto

lemma opt_some_cases:
  "opt_some x f = Inr b \<Longrightarrow> (nullish x \<and> \<not> b) \<or> (\<exists>xs. x = JArr xs \<and> js_some f xs = Inr b)"
  by (auto simp: opt_some_def dest: call_some_array split: if_splits)

lemma or_empty_nullish: "nullish x \<Longrightarrow> or_empty x = JArr []"
  by (cases x) (auto simp: or_empty_def)

lemma or_empty_array: "or_empty (JArr xs) = JArr xs"
  by (simp add: or_empty_def)

lemma lawful_modify:
  assumes "lawful lib D" "t \<in> D" "defined_json v" "p \<noteq> []" "modify lib t p v = Some t'"
  shows "t' \<in> D" and "lookup (parse lib t') p = v"
    and "\<And>q. \<not> prefix p q \<Longrightarrow> \<not> prefix q p \<Longrightarrow> lookup (parse lib t') q = lookup (parse lib t) q"
  using assms unfolding lawful_def by blast+

lemma lawful_parse: "lawful lib D \<Longrightarrow> t \<in> D \<Longrightarrow> defined_json (parse lib t)"
  unfolding lawful_def by blast

lemma append_entry_effect:
  assumes law: "lawful lib D" and u: "u \<in> D" and cur: "defined_json cur" and ent: "defined_json entry"
    and p: "p \<noteq> []" and run: "append_entry lib u p cur entry = Inr u'"
  shows "\<exists>elems. spread cur = Inr elems \<and> u' \<in> D \<and> lookup (parse lib u') p = JArr (elems @ [entry])
           \<and> (\<forall>q. \<not> prefix p q \<and> \<not> prefix q p \<longrightarrow> lookup (parse lib u') q = lookup (parse lib u) q)"
proof -
  from run obtain elems where sp: "spread cur = Inr elems"
    and m: "modify lib u p (JArr (elems @ [entry])) = Some u'"
    by (auto simp: append_entry_def bind_err_Inr modify_or_throw_def split: option.splits)
  have "defined_json (JArr (elems @ [entry]))"
    using spread_defined[OF cur sp] ent by simp
  from lawful_modify[OF law u this p m] sp show ?thesis by blast
qed

lemma guarded_append_effect:
  assumes law: "lawful lib D" and u: "u \<in> D" and raw: "raw = JUndefined \<or> defined_json raw"
    and ent: "defined_json entry" and p: "p \<noteq> []"
    and run: "bind_err (call_some (or_empty raw) f)
                (\<lambda>has. if \<not> has then append_entry lib u p (or_empty raw) entry else Inr u) = Inr u'"
  shows "u' \<in> D"
    and "\<And>q. \<not> prefix p q \<Longrightarrow> \<not> prefix q p \<Longrightarrow> lookup (parse lib u') q = lookup (parse lib u) q"
    and "\<exists>xs. or_empty raw = JArr xs \<and>
           ((js_some f xs = Inr True \<and> lookup (parse lib u') p = lookup (parse lib u) p) \<or>
            (js_some f xs = Inr False \<and> lookup (parse lib u') p = JArr (xs @ [entry])))"
proof -
  from run obtain has where has: "call_some (or_empty raw) f = Inr has"
    and rest: "(if \<not> has then append_entry lib u p (or_empty raw) entry else Inr u) = Inr u'"
    by (auto simp: bind_err_Inr)
  from call_some_array[OF has] obtain xs where xs: "or_empty raw = JArr xs" "js_some f xs = Inr has"
    by blast
  have d: "defined_json (or_empty raw)" using raw by (rule defined_or_empty)
  show "u' \<in> D"
    and "\<And>q. \<not> prefix p q \<Longrightarrow> \<not> prefix q p \<Longrightarrow> lookup (parse lib u') q = lookup (parse lib u) q"
    and "\<exists>xs. or_empty raw = JArr xs \<and>
           ((js_some f xs = Inr True \<and> lookup (parse lib u') p = lookup (parse lib u) p) \<or>
            (js_some f xs = Inr False \<and> lookup (parse lib u') p = JArr (xs @ [entry])))"
  proof (atomize (full), cases has)
    case True
    then have "u' = u" using rest by simp
    then show "u' \<in> D \<and> (\<forall>q. \<not> prefix p q \<longrightarrow> \<not> prefix q p \<longrightarrow> lookup (parse lib u') q = lookup (parse lib u) q) \<and>
          (\<exists>xs. or_empty raw = JArr xs \<and>
           ((js_some f xs = Inr True \<and> lookup (parse lib u') p = lookup (parse lib u) p) \<or>
            (js_some f xs = Inr False \<and> lookup (parse lib u') p = JArr (xs @ [entry]))))"
      using u xs True by simp
  next
    case False
    then have "append_entry lib u p (or_empty raw) entry = Inr u'" using rest by simp
    from append_entry_effect[OF law u d ent p this] xs False
    show "u' \<in> D \<and> (\<forall>q. \<not> prefix p q \<longrightarrow> \<not> prefix q p \<longrightarrow> lookup (parse lib u') q = lookup (parse lib u) q) \<and>
          (\<exists>xs. or_empty raw = JArr xs \<and>
           ((js_some f xs = Inr True \<and> lookup (parse lib u') p = lookup (parse lib u) p) \<or>
            (js_some f xs = Inr False \<and> lookup (parse lib u') p = JArr (xs @ [entry]))))"
      by auto
  qed
qed

lemma field_value_defined:
  "defined_json doc \<Longrightarrow> lookup doc p = JUndefined \<or> defined_json (lookup doc p)"
  by (rule defined_lookup)

lemma defined_new_entries:
  "defined_json htmlRule_json" "defined_json (newProducer config)" "defined_json (newConsumer config)"
  "defined_json newBinding" "defined_json newMigration"
  by (simp_all add: htmlRule_json_def newProducer_def newConsumer_def newBinding_def newMigration_def)

lemma json_updated_effect:
  assumes law: "lawful lib D" and c: "content \<in> D"
    and run: "json_updated lib content config = Inr (Some t')"
  shows "t' \<in> D"
    and "\<exists>ps. or_empty (lookup (parse lib content) [''queues'', ''producers'']) = JArr ps \<and>
           js_some (is_queue (queueName config)) ps = Inr False \<and>
           lookup (parse lib t') [''queues'', ''producers''] = JArr (ps @ [newProducer config])"
    and "\<exists>cs. spread (or_empty (lookup (parse lib content) [''queues'', ''consumers''])) = Inr cs \<and>
           lookup (parse lib t') [''queues'', ''consumers''] = JArr (cs @ [newConsumer config])"
    and "\<exists>rs. or_empty (lookup (parse lib content) [''rules'']) = JArr rs \<and>
           ((js_some is_html_rule rs = Inr True \<and>
               lookup (parse lib t') [''rules''] = lookup (parse lib content) [''rules'']) \<or>
            (js_some is_html_rule rs = Inr False \<and>
               lookup (parse lib t') [''rules''] = JArr (rs @ [htmlRule_json])))"
    and "\<exists>bs. or_empty (lookup (parse lib content) [''durable_objects'', ''bindings'']) = JArr bs \<and>
           ((js_some is_event_store bs = Inr True \<and>
               lookup (parse lib t') [''durable_objects'', ''bindings'']
                 = lookup (parse lib content) [''durable_objects'', ''bindings'']) \<or>
            (js_some is_event_store bs = Inr False \<and>
               lookup (parse lib t') [''durable_objects'', ''bindings''] = JArr (bs @ [newBinding])))"
    and "\<exists>ms. or_empty (lookup (parse lib content) [''migrations'']) = JArr ms \<and>
           ((js_some names_EventStore ms = Inr True \<and>
               lookup (parse lib t') [''migrations''] = lookup (parse lib content) [''migrations'']) \<or>
            (js_some names_EventStore ms = Inr False \<and>
               lookup (parse lib t') [''migrations''] = JArr (ms @ [newMigration])))"
proof -
  define doc where "doc = parse lib content"
  have ddoc: "defined_json doc" unfolding doc_def using law c by (rule lawful_parse)
  note fv = field_value_defined[OF ddoc]
  from run obtain u1 u2 u3 u4 where
        ex: "queue_exists doc (queueName config) = Inr False"
    and s1: "add_html_rule lib doc content = Inr u1"
    and s2: "add_producer lib doc config u1 = Inr u2"
    and s3: "add_consumer lib doc config u2 = Inr u3"
    and s4: "add_do_binding lib doc u3 = Inr u4"
    and s5: "add_migration lib doc u4 = Inr t'"
    unfolding json_updated_def doc_def[symmetric] Let_def
    by (auto simp: bind_err_Inr split: if_splits)
  \<comment> \<open>rules\<close>
  from s1 have r1: "bind_err (call_some (or_empty (lookup doc [''rules''])) is_html_rule)
       (\<lambda>has. if \<not> has then append_entry lib content [''rules''] (or_empty (lookup doc [''rules''])) htmlRule_json
               else Inr content) = Inr u1"
    unfolding add_html_rule_def Let_def bind_err_Inr[of "get_prop doc ''rules''"]
    using get_prop_lookup by blast
  note e1 = guarded_append_effect[OF law c fv defined_new_entries(1) _ r1, simplified]
  \<comment> \<open>producers\<close>
  from ex obtain praw where praw: "nested_field doc ''queues'' ''producers'' = Inr praw"
    and some: "opt_some praw (is_queue (queueName config)) = Inr False"
    by (auto simp: queue_exists_def bind_err_Inr)
  have praw_eq: "praw = lookup doc [''queues'', ''producers'']" using praw by (rule nested_field_lookup)
  from opt_some_cases[OF some] obtain ps where ps: "or_empty praw = JArr ps"
    "js_some (is_queue (queueName config)) ps = Inr False"
    by (auto simp: or_empty_nullish or_empty_array)
  from s2 praw have r2: "append_entry lib u1 [''queues'', ''producers''] (JArr ps) (newProducer config) = Inr u2"
    by (simp add: add_producer_def bind_err_def ps)
  have dps: "defined_json (JArr ps)"
    using ps(1) defined_or_empty[OF fv[of "[''queues'', ''producers'']"]] praw_eq by simp
  from append_entry_effect[OF law e1(1) dps defined_new_entries(2) _ r2]
  have e2: "u2 \<in> D" "lookup (parse lib u2) [''queues'', ''producers''] = JArr (ps @ [newProducer config])"
    "\<And>q. \<not> prefix [''queues'', ''producers''] q \<Longrightarrow> \<not> prefix q [''queues'', ''producers'']
       \<Longrightarrow> lookup (parse lib u2) q = lookup (parse lib u1) q"
    by auto
  \<comment> \<open>consumers\<close>
  from s3 obtain craw where craw: "nested_field doc ''queues'' ''consumers'' = Inr craw"
    and r3: "append_entry lib u2 [''queues'', ''consumers''] (or_empty craw) (newConsumer config) = Inr u3"
    by (auto simp: add_consumer_def bind_err_Inr)
  have craw_eq: "craw = lookup doc [''queues'', ''consumers'']" using craw by (rule nested_field_lookup)
  have dcs: "defined_json (or_empty craw)"
    using defined_or_empty[OF fv[of "[''queues'', ''consumers'']"]] craw_eq by simp
  from append_entry_effect[OF law e2(1) dcs defined_new_entries(3) _ r3]
  obtain cs where cs: "spread (or_empty craw) = Inr cs"
    and e3: "u3 \<in> D" "lookup (parse lib u3) [''queues'', ''consumers''] = JArr (cs @ [newConsumer config])"
    "\<And>q. \<not> prefix [''queues'', ''consumers''] q \<Longrightarrow> \<not> prefix q [''queues'', ''consumers'']
       \<Longrightarrow> lookup (parse lib u3) q = lookup (parse lib u2) q"
    by auto
  \<comment> \<open>bindings\<close>
  from s4 obtain braw where braw: "nested_field doc ''durable_objects'' ''bindings'' = Inr braw"
    and r4: "bind_err (call_some (or_empty braw) is_event_store)
       (\<lambda>has. if \<not> has then append_entry lib u3 [''durable_objects'', ''bindings''] (or_empty braw) newBinding
               else Inr u3) = Inr u4"
    unfolding add_do_binding_def Let_def by (auto simp: bind_err_Inr)
  have braw_eq: "braw = lookup doc [''durable_objects'', ''bindings'']" using braw by (rule nested_field_lookup)
  have braw_d: "braw = JUndefined \<or> defined_json braw" using fv braw_eq by simp
  note e4 = guarded_append_effect[OF law e3(1) braw_d defined_new_entries(4) _ r4, simplified]
  \<comment> \<open>migrations\<close>
  from s5 have r5: "bind_err (call_some (or_empty (lookup doc [''migrations''])) names_EventStore)
       (\<lambda>has. if \<not> has then append_entry lib u4 [''migrations''] (or_empty (lookup doc [''migrations''])) newMigration
               else Inr u4) = Inr t'"
    unfolding add_migration_def Let_def bind_err_Inr[of "get_prop doc ''migrations''"]
    using get_prop_lookup by blast
  note e5 = guarded_append_effect[OF law e4(1) fv defined_new_entries(5) _ r5, simplified]
  show "t' \<in> D" by (rule e5(1))
  have f1: "lookup (parse lib t') [''queues'', ''producers''] = lookup (parse lib u2) [''queues'', ''producers'']"
    by (simp add: e5(2) e4(2) e3(3))
  show "\<exists>ps. or_empty (lookup (parse lib content) [''queues'', ''producers'']) = JArr ps \<and>
           js_some (is_queue (queueName config)) ps = Inr False \<and>
           lookup (parse lib t') [''queues'', ''producers''] = JArr (ps @ [newProducer config])"
    using ps praw_eq f1 e2(2) doc_def by auto
  have f2: "lookup (parse lib t') [''queues'', ''consumers''] = lookup (parse lib u3) [''queues'', ''consumers'']"
    by (simp add: e5(2) e4(2))
  show "\<exists>cs. spread (or_empty (lookup (parse lib content) [''queues'', ''consumers''])) = Inr cs \<and>
           lookup (parse lib t') [''queues'', ''consumers''] = JArr (cs @ [newConsumer config])"
    using cs craw_eq f2 e3(2) doc_def by auto
  have f3: "lookup (parse lib t') [''rules''] = lookup (parse lib u1) [''rules'']"
    by (simp add: e5(2) e4(2) e3(3) e2(3))
  show "\<exists>rs. or_empty (lookup (parse lib content) [''rules'']) = JArr rs \<and>
           ((js_some is_html_rule rs = Inr True \<and>
               lookup (parse lib t') [''rules''] = lookup (parse lib content) [''rules'']) \<or>
            (js_some is_html_rule rs = Inr False \<and>
               lookup (parse lib t') [''rules''] = JArr (rs @ [htmlRule_json])))"
    using e1(3) f3 doc_def by auto
  have f4pre: "lookup (parse lib u3) [''durable_objects'', ''bindings''] = lookup doc [''durable_objects'', ''bindings'']"
    by (simp add: e3(3) e2(3) e1(2) doc_def)
  have f4: "lookup (parse lib t') [''durable_objects'', ''bindings''] = lookup (parse lib u4) [''durable_objects'', ''bindings'']"
    by (simp add: e5(2))
  show "\<exists>bs. or_empty (lookup (parse lib content) [''durable_objects'', ''bindings'']) = JArr bs \<and>
           ((js_some is_event_store bs = Inr True \<and>
               lookup (parse lib t') [''durable_objects'', ''bindings'']
                 = lookup (parse lib content) [''durable_objects'', ''bindings'']) \<or>
            (js_some is_event_store bs = Inr False \<and>
               lookup (parse lib t') [''durable_objects'', ''bindings''] = JArr (bs @ [newBinding])))"
    using e4(3) f4 f4pre braw_eq doc_def by auto
  have f5pre: "lookup (parse lib u4) [''migrations''] = lookup doc [''migrations'']"
    by (simp add: e4(2) e3(3) e2(3) e1(2) doc_def)
  show "\<exists>ms. or_empty (lookup (parse lib content) [''migrations'']) = JArr ms \<and>
           ((js_some names_EventStore ms = Inr True \<and>
               lookup (parse lib t') [''migrations''] = lookup (parse lib content) [''migrations'']) \<or>
            (js_some names_EventStore ms = Inr False \<and>
               lookup (parse lib t') [''migrations''] = JArr (ms @ [newMigration])))"
    using e5(3) f5pre doc_def by auto
qed

subsection \<open>A second run finds the queue\<close>

lemma starts_with_append: "starts_with (n @ b) n"
  by (induction n) auto

lemma starts_with_includes: "starts_with s n \<Longrightarrow> str_includes s n"
  by (cases s; cases n) auto

lemma includes_append_left: "str_includes s n \<Longrightarrow> str_includes (a @ s) n"
  by (induction a) auto

lemma includes_infix: "str_includes (a @ n @ b) n"
  by (intro includes_append_left starts_with_includes starts_with_append)

lemma queueConfig_toml_marker:
  \<open>queueConfig_toml config =
     ''\<newline># Queue Configuration\<newline>[[queues.producers]]\<newline>'' @ queue_marker (queueName config)
     @ (''\<newline>binding = "'' @ bindingName config
     @ ''"\<newline>\<newline>[[queues.consumers]]\<newline>queue = "'' @ queueName config
     @ ''"\<newline>max_batch_size = '' @ show_int (default_to (maxBatchSize config) 4)
     @ ''\<newline>max_batch_timeout = '' @ show_int (default_to (maxBatchTimeout config) 3)
     @ ''\<newline>max_retries = '' @ show_int (default_to (maxRetries config) 3)
     @ ''\<newline>'')\<close>
  by (simp add: queueConfig_toml_def queue_marker_def)

lemma toml_updated_has_queue: "str_includes (toml_updated content config) (queue_marker (queueName config))"
proof -
  obtain a b where "toml_updated content config = a @ queue_marker (queueName config) @ b"
    unfolding toml_updated_def queueConfig_toml_marker by (metis append.assoc)
  then show ?thesis by (simp add: includes_infix)
qed

lemma is_queue_newProducer: "is_queue (queueName config) (newProducer config) = Inr True"
  by (simp add: is_queue_def newProducer_def bind_err_def)

lemma json_updated_again:
  assumes law: "lawful lib D" and c: "content \<in> D"
    and run: "json_updated lib content config = Inr (Some t')"
  shows "json_updated lib t' config = Inr None"
proof -
  from json_updated_effect(2)[OF law c run] obtain ps where
    ps: "js_some (is_queue (queueName config)) ps = Inr False"
    "lookup (parse lib t') [''queues'', ''producers''] = JArr (ps @ [newProducer config])"
    by blast
  then have "nested_field (parse lib t') ''queues'' ''producers'' = Inr (JArr (ps @ [newProducer config]))"
    using nested_field_found[of "parse lib t'" "''queues''" "''producers''"] by simp
  moreover have "js_some (is_queue (queueName config)) (ps @ [newProducer config]) = Inr True"
    using js_some_append[OF ps(1)] by (simp add: is_queue_newProducer)
  ultimately have "queue_exists (parse lib t') (queueName config) = Inr True"
    by (simp add: queue_exists_def bind_err_def opt_some_def)
  then show ?thesis by (simp add: json_updated_def bind_err_def)
qed

lemma patch_toml_twice:
  "files (snd (patchWranglerConfigForQueues lib (snd (patchWranglerConfigForQueues lib w p config)) p config))
     = files (snd (patchWranglerConfigForQueues lib w p config))" if "ends_with p ''.toml''"
  using that toml_updated_has_queue[of _ config]
  by (auto simp: patchWranglerConfigForQueues_def readFile_def writeFile_def say_def
      patchTomlConfigForQueues_def split: option.splits)

lemma patch_json_twice:
  assumes law: "lawful lib D" and c: "\<forall>c. files w p = Some c \<longrightarrow> c \<in> D" and nt: "\<not> ends_with p ''.toml''"
  shows "files (snd (patchWranglerConfigForQueues lib (snd (patchWranglerConfigForQueues lib w p config)) p config))
     = files (snd (patchWranglerConfigForQueues lib w p config))"
proof (cases "files w p")
  case None
  then show ?thesis
    by (simp add: patchWranglerConfigForQueues_def readFile_def say_def)
next
  case (Some content)
  then have cD: "content \<in> D" using c by simp
  show ?thesis
  proof (cases "json_updated lib content config")
    case (Inl e)
    then show ?thesis using Some nt
      by (simp add: patchWranglerConfigForQueues_def readFile_def say_def patchJsonConfigForQueues_def)
  next
    case (Inr r)
    show ?thesis
    proof (cases r)
      case None
      then show ?thesis using Some nt Inr
        by (simp add: patchWranglerConfigForQueues_def readFile_def say_def patchJsonConfigForQueues_def)
    next
      case (Some t')
      from json_updated_again[OF law cD] Inr Some have again: "json_updated lib t' config = Inr None" by simp
      show ?thesis using \<open>files w p = Some content\<close> nt Inr Some again
        by (simp add: patchWranglerConfigForQueues_def readFile_def writeFile_def say_def
            patchJsonConfigForQueues_def)
    qed
  qed
qed

subsection \<open>The registry as a sequence of insertions\<close>

lemma keys_map_set_old: "k \<in> set (map fst r) \<Longrightarrow> map fst (map_set k v r) = map fst r"
  by (induction r) force+

lemma keys_map_set_new: "k \<notin> set (map fst r) \<Longrightarrow> map fst (map_set k v r) = map fst r @ [k]"
  by (induction r) auto

lemma keys_map_set: "map fst (map_set k v r) = (if k \<in> set (map fst r) then map fst r else map fst r @ [k])"
  using keys_map_set_old keys_map_set_new by metis

lemma find_append_cases: "find P (xs @ ys) = (case find P xs of None \<Rightarrow> find P ys | Some x \<Rightarrow> Some x)"
  by (induction xs) auto

lemma map_of_map_set: "map_of (map_set k v r) = (map_of r)(k \<mapsto> v)"
  by (induction r) auto

lemma filter_first_seen_absorb: "k \<in> A \<Longrightarrow> filter (\<lambda>x. x \<notin> A) (filter (\<lambda>k'. k' \<noteq> k) xs) = filter (\<lambda>x. x \<notin> A) xs"
  by (induction xs) auto

lemma keys_foldl_register:
  "map fst (foldl (\<lambda>r p. register p r) r ps)
     = map fst r @ filter (\<lambda>k. k \<notin> set (map fst r)) (first_seen (map prim_id ps))"
proof (induction ps arbitrary: r)
  case Nil
  then show ?case by simp
next
  case (Cons p ps)
  show ?case
  proof (cases "prim_id p \<in> set (map fst r)")
    case True
    then show ?thesis
      using Cons[of "register p r"] filter_first_seen_absorb[of "prim_id p" "set (map fst r)"]
      by (simp add: register_def keys_map_set)
  next
    case False
    have "filter (\<lambda>k. k \<noteq> prim_id p \<and> k \<notin> fst ` set r) xs = filter (\<lambda>k. k \<notin> fst ` set r) (filter (\<lambda>k'. k' \<noteq> prim_id p) xs)" for xs
      by (induction xs) auto
    then show ?thesis
      using Cons[of "register p r"] False
      by (simp add: register_def keys_map_set)
  qed
qed

lemma first_seen_set: "set (first_seen ks) = set ks"
  by (induction ks) auto

lemma first_seen_distinct: "distinct (first_seen ks)"
  by (induction ks) (auto simp: first_seen_set)

lemma first_seen_id: "distinct ks \<Longrightarrow> first_seen ks = ks"
  by (induction ks) (auto simp: filter_id_conv)

lemma keys_registered: "map fst (registered ps) = first_seen (map prim_id ps)"
  using keys_foldl_register[of "[]" ps] by (simp add: registered_def)

lemma map_of_foldl_register:
  "map_of (foldl (\<lambda>r p. register p r) r ps) i
     = (case last_registered ps i of None \<Rightarrow> map_of r i | Some p \<Rightarrow> Some p)"
proof (induction ps arbitrary: r)
  case Nil
  then show ?case by (simp add: last_registered_def)
next
  case (Cons p ps)
  show ?case using Cons[of "register p r"]
    by (auto simp: last_registered_def register_def map_of_map_set find_append_cases split: option.splits)
qed

lemma map_of_registered: "map_of (registered ps) i = last_registered ps i"
  using map_of_foldl_register[of "[]" ps i] by (simp add: registered_def split: option.splits)

lemma last_registered_id: "last_registered ps i = Some p \<Longrightarrow> prim_id p = i"
  by (auto simp: last_registered_def find_Some_iff)

lemma registered_entry:
  assumes "(k, p) \<in> set (registered ps)"
  shows "last_registered ps k = Some p" and "prim_id p = k"
proof -
  have "distinct (map fst (registered ps))" by (simp add: keys_registered first_seen_distinct)
  then have "map_of (registered ps) k = Some p" using assms by simp
  then show "last_registered ps k = Some p" by (simp add: map_of_registered)
  then show "prim_id p = k" by (rule last_registered_id)
qed

lemma getAll_ids: "map prim_id (getAll (registered ps)) = first_seen (map prim_id ps)"
proof -
  have "\<forall>e \<in> set r. prim_id (snd e) = fst e \<Longrightarrow> map prim_id (map snd r) = map fst r"
    for r :: "('a Primitive_scheme) registry"
    by (induction r) auto
  moreover have "\<forall>e \<in> set (registered ps). prim_id (snd e) = fst e"
    using registered_entry(2)[of _ _ ps] by auto
  ultimately have "map prim_id (map snd (registered ps)) = map fst (registered ps)" by blast
  then show ?thesis by (simp add: getAll_def keys_registered)
qed

lemma registered_distinct_ids: "distinct (map prim_id ps) \<Longrightarrow> getAll (registered ps) = ps"
proof (induction ps rule: rev_induct)
  case Nil
  then show ?case by (simp add: registered_def getAll_def)
next
  case (snoc p ps)
  then have IH: "map snd (registered ps) = ps" by (simp add: getAll_def)
  have "prim_id p \<notin> set (map fst (registered ps))"
    using snoc.prems by (simp add: keys_registered first_seen_set)
  moreover have "k \<notin> set (map fst r) \<Longrightarrow> map_set k v r = r @ [(k, v)]" for k and v :: "'a Primitive_scheme" and r
    by (induction r) auto
  ultimately have "registered (ps @ [p]) = registered ps @ [(prim_id p, p)]"
    by (simp add: registered_def register_def)
  then show ?case using IH by (simp add: getAll_def)
qed

lemma map_set_update:
  "i < length r \<Longrightarrow> fst (r ! i) = k \<Longrightarrow> distinct (map fst r) \<Longrightarrow> map snd (map_set k v r) = (map snd r)[i := v]"
proof (induction r arbitrary: i)
  case Nil
  then show ?case by simp
next
  case (Cons e r)
  show ?case
  proof (cases i)
    case 0
    then show ?thesis using Cons by (cases e) auto
  next
    case (Suc j)
    then have "r ! j \<in> set r" "fst (r ! j) = k" using Cons.prems by auto
    then have "k \<in> fst ` set r" by force
    then have "fst e \<noteq> k" using Cons.prems(3) by auto
    then show ?thesis using Cons Suc by (cases e) auto
  qed
qed

subsection \<open>Registry listings\<close>

text \<open>
  C7. In every registry state reached by a sequence of \<open>register\<close> calls, the
  existing-project listing holds no primitive with \<open>supportsExisting = false\<close> and the
  new-project listing none with \<open>supportsNewProject = false\<close>; each listing is the
  sequence of all registered primitives restricted to its capability flag; the registered
  primitives stand in the order in which their ids were first registered, each id with the
  primitive it was last given; and when no id was registered twice the listings are the
  registered sequence itself, restricted to the flag.
\<close>

theorem registry_listings:
  fixes ps :: "('a Primitive_scheme) list"
  shows "(\<forall>p \<in> set (getForExisting (registered ps)). supportsExisting p) \<and>
         (\<forall>p \<in> set (getForNewProject (registered ps)). supportsNewProject p) \<and>
         getForExisting (registered ps) = filter supportsExisting (getAll (registered ps)) \<and>
         getForNewProject (registered ps) = filter supportsNewProject (getAll (registered ps)) \<and>
         map prim_id (getAll (registered ps)) = first_seen (map prim_id ps) \<and>
         (\<forall>p \<in> set (getAll (registered ps)). last_registered ps (prim_id p) = Some p) \<and>
         (distinct (map prim_id ps) \<longrightarrow>
            getForExisting (registered ps) = filter supportsExisting ps \<and>
            getForNewProject (registered ps) = filter supportsNewProject ps)"
proof -
  have "last_registered ps (prim_id p) = Some p" if "p \<in> set (getAll (registered ps))" for p
  proof -
    from that obtain k where "(k, p) \<in> set (registered ps)" by (auto simp: getAll_def)
    then show ?thesis using registered_entry by metis
  qed
  then show ?thesis
    by (auto simp: getForExisting_def getForNewProject_def getAll_ids registered_distinct_ids)
qed

theorem registry_listings_witness:
  "distinct (map prim_id [QueuesPrimitive, WorkerOnlyPrimitive]) \<and>
   getForExisting (registered [QueuesPrimitive, WorkerOnlyPrimitive]) = [QueuesPrimitive] \<and>
   getForNewProject (registered [QueuesPrimitive, WorkerOnlyPrimitive]) = [QueuesPrimitive, WorkerOnlyPrimitive] \<and>
   QueuesPrimitive \<in> set (getAll (registered [QueuesPrimitive, WorkerOnlyPrimitive])) \<and>
   last_registered [QueuesPrimitive, WorkerOnlyPrimitive] (prim_id QueuesPrimitive) = Some QueuesPrimitive"
  using registry_listings [of "[QueuesPrimitive, WorkerOnlyPrimitive]"]
  by (simp add: QueuesPrimitive_def WorkerOnlyPrimitive_def registered_def register_def getAll_def)

text \<open>
  C9. Registering a primitive whose id is already registered replaces the earlier
  primitive where it stands: the sequence of all registered primitives changes at that one
  position only, the order of the ids is what it was, and the id now reads as the later
  primitive.
\<close>

theorem register_again_keeps_position:
  fixes p :: "'a Primitive_scheme"
  assumes "has (registered ps) (prim_id p)"
  shows "\<exists>i < length (getAll (registered ps)).
           prim_id (getAll (registered ps) ! i) = prim_id p \<and>
           getAll (register p (registered ps)) = (getAll (registered ps))[i := p] \<and>
           map prim_id (getAll (register p (registered ps))) = map prim_id (getAll (registered ps)) \<and>
           get (register p (registered ps)) (prim_id p) = Some p"
proof -
  define r where "r = registered ps"
  have d: "distinct (map fst r)" by (simp add: r_def keys_registered first_seen_distinct)
  from assms have "prim_id p \<in> fst ` set r"
    by (auto simp: has_def r_def dest: map_of_SomeD intro: rev_image_eqI)
  then obtain i where i: "i < length r" "fst (r ! i) = prim_id p"
    by (auto simp: in_set_conv_nth)
  have upd: "map snd (map_set (prim_id p) p r) = (map snd r)[i := p]"
    using i d by (rule map_set_update)
  have "(fst (r ! i), snd (r ! i)) \<in> set r" using i(1) by simp
  then have idi: "prim_id (snd (r ! i)) = prim_id p"
    using registered_entry(2)[of "fst (r ! i)" "snd (r ! i)" ps] i(2) by (simp add: r_def)
  have ids: "map prim_id ((map snd r)[i := p]) = map prim_id (map snd r)"
    using idi i(1) by (simp add: map_update list_update_same_conv)
  have "map_of (map_set (prim_id p) p r) (prim_id p) = Some p" by (simp add: map_of_map_set)
  then show ?thesis
    using i(1) idi upd ids unfolding r_def[symmetric] getAll_def register_def get_def
    by (intro exI[of _ i]) simp
qed

theorem register_again_keeps_position_witness:
  "has (registered [QueuesPrimitive, WorkerOnlyPrimitive]) (prim_id (QueuesPrimitive\<lparr>description := ''test double''\<rparr>)) \<and>
   getAll (register (QueuesPrimitive\<lparr>description := ''test double''\<rparr>) (registered [QueuesPrimitive, WorkerOnlyPrimitive]))
     = [QueuesPrimitive\<lparr>description := ''test double''\<rparr>, WorkerOnlyPrimitive] \<and>
   map prim_id (getAll (register (QueuesPrimitive\<lparr>description := ''test double''\<rparr>) (registered [QueuesPrimitive, WorkerOnlyPrimitive])))
     = map prim_id (getAll (registered [QueuesPrimitive, WorkerOnlyPrimitive]))"
proof -
  have h: "has (registered [QueuesPrimitive, WorkerOnlyPrimitive]) (prim_id (QueuesPrimitive\<lparr>description := ''test double''\<rparr>))"
    by (simp add: has_def registered_def register_def QueuesPrimitive_def WorkerOnlyPrimitive_def)
  have e: "getAll (register (QueuesPrimitive\<lparr>description := ''test double''\<rparr>) (registered [QueuesPrimitive, WorkerOnlyPrimitive]))
     = [QueuesPrimitive\<lparr>description := ''test double''\<rparr>, WorkerOnlyPrimitive]"
    by (simp add: getAll_def registered_def register_def QueuesPrimitive_def WorkerOnlyPrimitive_def)
  from register_again_keeps_position [OF h]
  have "map prim_id (getAll (register (QueuesPrimitive\<lparr>description := ''test double''\<rparr>) (registered [QueuesPrimitive, WorkerOnlyPrimitive])))
     = map prim_id (getAll (registered [QueuesPrimitive, WorkerOnlyPrimitive]))"
    by blast
  with h e show ?thesis by blast
qed

subsection \<open>Patching twice\<close>

text \<open>
  C1. Applying \<open>patchWranglerConfigForQueues\<close> twice in succession with the same
  configuration leaves the files as one application leaves them. On the TOML path this
  holds for every document; on the JSON/JSONC path for every document on which the JSONC
  library meets its contract.
\<close>

theorem patch_twice_same_document:
  assumes "lawful lib D" and "ends_with p ''.toml'' \<or> (\<forall>c. files w p = Some c \<longrightarrow> c \<in> D)"
  shows "files (snd (patchWranglerConfigForQueues lib (snd (patchWranglerConfigForQueues lib w p config)) p config))
           = files (snd (patchWranglerConfigForQueues lib w p config))"
proof (cases "ends_with p ''.toml''")
  case True
  then show ?thesis by (rule patch_toml_twice)
next
  case False
  with assms show ?thesis by (intro patch_json_twice[of lib D]) auto
qed

lemma minimal_doc_in_ref_docs: "enc minimal_doc \<in> ref_docs"
  unfolding ref_docs_def by (rule imageI) (simp add: minimal_doc_def)

lemma minimal_world_patched:
  "fst (patchWranglerConfigForQueues ref_jsonc minimal_world ''wrangler.jsonc'' demo_config) \<and>
   files (snd (patchWranglerConfigForQueues ref_jsonc minimal_world ''wrangler.jsonc'' demo_config)) ''wrangler.jsonc''
     \<noteq> Some (enc minimal_doc)"
  by code_simp

theorem patch_twice_same_document_witness:
  "fst (patchWranglerConfigForQueues ref_jsonc minimal_world ''wrangler.jsonc'' demo_config) \<and>
   files (snd (patchWranglerConfigForQueues ref_jsonc minimal_world ''wrangler.jsonc'' demo_config)) ''wrangler.jsonc''
     \<noteq> files minimal_world ''wrangler.jsonc'' \<and>
   files (snd (patchWranglerConfigForQueues ref_jsonc
                (snd (patchWranglerConfigForQueues ref_jsonc minimal_world ''wrangler.jsonc'' demo_config))
                ''wrangler.jsonc'' demo_config))
     = files (snd (patchWranglerConfigForQueues ref_jsonc minimal_world ''wrangler.jsonc'' demo_config))"
proof -
  have d: "ends_with ''wrangler.jsonc'' ''.toml'' \<or> (\<forall>c. files minimal_world ''wrangler.jsonc'' = Some c \<longrightarrow> c \<in> ref_docs)"
    using minimal_doc_in_ref_docs by (simp add: minimal_world_def empty_world_def)
  have f: "files minimal_world ''wrangler.jsonc'' = Some (enc minimal_doc)"
    by (simp add: minimal_world_def empty_world_def)
  show ?thesis
    using patch_twice_same_document [OF ref_lawful d, of demo_config] minimal_world_patched f by simp
qed

subsection \<open>The minimal document\<close>

lemma can_set_top: "can_set (JObj kvs) [a]"
  by (simp split: option.splits)

lemma can_set_nested:
  assumes "j = JObj kvs" and "lookup j [a] = JUndefined \<or> (\<exists>kvs'. lookup j [a] = JObj kvs')"
  shows "can_set j [a, b]"
  using assms by (auto split: option.splits)

lemma lookup_parent_object:
  assumes "lookup j [a, b] \<noteq> JUndefined"
  shows "\<exists>kvs'. lookup j [a] = JObj kvs'"
proof -
  have "lookup (lookup j [a]) [b] \<noteq> JUndefined" using assms lookup_Cons[of j a "[b]"] by simp
  then show ?thesis by (rule lookup_defined_root)
qed

lemma modify_total:
  assumes "modify_succeeds lib D" "t \<in> D" "defined_json v" "can_set (parse lib t) p"
  shows "\<exists>t'. modify_or_throw lib t p v = Inr t'"
  using assms unfolding modify_succeeds_def modify_or_throw_def by (auto split: option.splits)

lemma append_to_empty: "append_entry lib u p (JArr []) entry = modify_or_throw lib u p (JArr [entry])"
  by (simp add: append_entry_def bind_err_def)

text \<open>On a document that is an object and has none of the five sequences, every edit of
  the JSON path goes through.\<close>

lemma json_updated_on_fresh_document:
  assumes law: "lawful lib D" and tot: "modify_succeeds lib D" and c: "content \<in> D"
    and obj: "parse lib content = JObj kvs"
    and fresh: "map_of kvs ''queues'' = None" "map_of kvs ''rules'' = None"
      "map_of kvs ''durable_objects'' = None" "map_of kvs ''migrations'' = None"
  shows "\<exists>t'. json_updated lib content config = Inr (Some t')"
proof -
  define doc where "doc = parse lib content"
  have look: "lookup doc [''queues''] = JUndefined" "lookup doc [''durable_objects''] = JUndefined"
    using obj fresh by (simp_all add: doc_def)
  have ex: "queue_exists doc (queueName config) = Inr False"
    using obj fresh by (simp add: doc_def queue_exists_def nested_field_def bind_err_def opt_prop_def opt_some_def)
  \<comment> \<open>rules\<close>
  have "can_set (parse lib content) [''rules'']" unfolding obj by (rule can_set_top)
  from modify_total[OF tot c _ this, of "JArr [htmlRule_json]"] obtain u1 where
    m1: "modify_or_throw lib content [''rules''] (JArr [htmlRule_json]) = Inr u1"
    using defined_new_entries by auto
  then have s1: "add_html_rule lib doc content = Inr u1"
    using obj fresh by (simp add: add_html_rule_def doc_def bind_err_def or_empty_def append_to_empty)
  from m1 have m1': "modify lib content [''rules''] (JArr [htmlRule_json]) = Some u1"
    by (auto simp: modify_or_throw_def split: option.splits)
  have d1: "defined_json (JArr [htmlRule_json])" using defined_new_entries by simp
  note e1 = lawful_modify[OF law c d1 _ m1', simplified]
  \<comment> \<open>producers\<close>
  obtain kvs1 where o1: "parse lib u1 = JObj kvs1"
    using e1(2) lookup_defined_root[of "parse lib u1" "''rules''" "[]"] by auto
  have "lookup (parse lib u1) [''queues''] = JUndefined" using e1(3)[of "[''queues'']"] look by (simp add: doc_def)
  then have "can_set (parse lib u1) [''queues'', ''producers'']" using o1 can_set_nested by blast
  from modify_total[OF tot e1(1) _ this, of "JArr [newProducer config]"] obtain u2 where
    m2: "modify_or_throw lib u1 [''queues'', ''producers''] (JArr [newProducer config]) = Inr u2"
    using defined_new_entries by auto
  then have s2: "add_producer lib doc config u1 = Inr u2"
    using obj fresh by (simp add: add_producer_def nested_field_def doc_def bind_err_def opt_prop_def or_empty_def append_to_empty)
  from m2 have m2': "modify lib u1 [''queues'', ''producers''] (JArr [newProducer config]) = Some u2"
    by (auto simp: modify_or_throw_def split: option.splits)
  have d2: "defined_json (JArr [newProducer config])" using defined_new_entries by simp
  note e2 = lawful_modify[OF law e1(1) d2 _ m2', simplified]
  \<comment> \<open>consumers\<close>
  have ne2: "lookup (parse lib u2) [''queues'', ''producers''] \<noteq> JUndefined" using e2(2) by simp
  obtain kvs2 where o2: "parse lib u2 = JObj kvs2" using ne2 lookup_defined_root by blast
  have "can_set (parse lib u2) [''queues'', ''consumers'']"
    using o2 lookup_parent_object[OF ne2] can_set_nested by blast
  from modify_total[OF tot e2(1) _ this, of "JArr [newConsumer config]"] obtain u3 where
    m3: "modify_or_throw lib u2 [''queues'', ''consumers''] (JArr [newConsumer config]) = Inr u3"
    using defined_new_entries by auto
  then have s3: "add_consumer lib doc config u2 = Inr u3"
    using obj fresh by (simp add: add_consumer_def nested_field_def doc_def bind_err_def opt_prop_def or_empty_def append_to_empty)
  from m3 have m3': "modify lib u2 [''queues'', ''consumers''] (JArr [newConsumer config]) = Some u3"
    by (auto simp: modify_or_throw_def split: option.splits)
  have d3: "defined_json (JArr [newConsumer config])" using defined_new_entries by simp
  note e3 = lawful_modify[OF law e2(1) d3 _ m3', simplified]
  \<comment> \<open>bindings\<close>
  have ne3: "lookup (parse lib u3) [''queues'', ''consumers''] \<noteq> JUndefined" using e3(2) by simp
  obtain kvs3 where o3: "parse lib u3 = JObj kvs3" using ne3 lookup_defined_root by blast
  have "lookup (parse lib u3) [''durable_objects''] = JUndefined"
    using e3(3)[of "[''durable_objects'']"] e2(3)[of "[''durable_objects'']"] e1(3)[of "[''durable_objects'']"] look
    by (simp add: doc_def)
  then have "can_set (parse lib u3) [''durable_objects'', ''bindings'']" using o3 can_set_nested by blast
  from modify_total[OF tot e3(1) _ this, of "JArr [newBinding]"] obtain u4 where
    m4: "modify_or_throw lib u3 [''durable_objects'', ''bindings''] (JArr [newBinding]) = Inr u4"
    using defined_new_entries by auto
  then have s4: "add_do_binding lib doc u3 = Inr u4"
    using obj fresh by (simp add: add_do_binding_def nested_field_def doc_def bind_err_def opt_prop_def or_empty_def append_to_empty)
  from m4 have m4': "modify lib u3 [''durable_objects'', ''bindings''] (JArr [newBinding]) = Some u4"
    by (auto simp: modify_or_throw_def split: option.splits)
  have d4: "defined_json (JArr [newBinding])" using defined_new_entries by simp
  note e4 = lawful_modify[OF law e3(1) d4 _ m4', simplified]
  \<comment> \<open>migrations\<close>
  have ne4: "lookup (parse lib u4) [''durable_objects'', ''bindings''] \<noteq> JUndefined" using e4(2) by simp
  obtain kvs4 where o4: "parse lib u4 = JObj kvs4" using ne4 lookup_defined_root by blast
  have "can_set (parse lib u4) [''migrations'']" unfolding o4 by (rule can_set_top)
  from modify_total[OF tot e4(1) _ this, of "JArr [newMigration]"] obtain u5 where
    m5: "modify_or_throw lib u4 [''migrations''] (JArr [newMigration]) = Inr u5"
    using defined_new_entries by auto
  then have s5: "add_migration lib doc u4 = Inr u5"
    using obj fresh by (simp add: add_migration_def doc_def bind_err_def or_empty_def append_to_empty)
  show ?thesis
    using ex s1 s2 s3 s4 s5 unfolding json_updated_def Let_def doc_def[symmetric]
    by (simp add: bind_err_def)
qed

lemma new_entries_match:
  "is_html_rule htmlRule_json = Inr True" "is_event_store newBinding = Inr True"
  "names_EventStore newMigration = Inr True"
  by (simp_all add: is_html_rule_def htmlRule_json_def is_event_store_def newBinding_def
      names_EventStore_def newMigration_def bind_err_def)

text \<open>
  C3. Patching a JSON-like document that parses to \<^verbatim>\<open>{"name":"x"}\<close> with queue name
  \<open>demo-queue\<close>, binding name \<open>DEMO_QUEUE\<close> and the defaults succeeds and writes a document
  whose producers are exactly the one producer, whose consumers are exactly the one
  consumer with batch size 4, timeout 3 and 3 retries, and whose rules, storage-object
  bindings and migrations are exactly the one text rule, the one \<open>EVENT_STORE\<close> binding and
  the one migration naming \<open>EventStore\<close>; running the same patch again succeeds and leaves
  the files as they are.
\<close>

theorem minimal_document_patch:
  assumes "lawful lib D" and "modify_succeeds lib D" and "content \<in> D"
    and "parse lib content = minimal_doc" and "p \<notin> unwritable w"
  shows "\<exists>content'.
           fst (patchJsonConfigForQueues lib w p content demo_config) \<and>
           files (snd (patchJsonConfigForQueues lib w p content demo_config)) p = Some content' \<and>
           producers_of (parse lib content')
             = [JObj [(''queue'', JStr ''demo-queue''), (''binding'', JStr ''DEMO_QUEUE'')]] \<and>
           consumers_of (parse lib content')
             = [JObj [(''queue'', JStr ''demo-queue''), (''max_batch_size'', JNum 4),
                      (''max_batch_timeout'', JNum 3), (''max_retries'', JNum 3)]] \<and>
           entries (lookup (parse lib content') [''rules'']) = [htmlRule_json] \<and>
           html_rules (parse lib content') = [htmlRule_json] \<and>
           entries (lookup (parse lib content') [''durable_objects'', ''bindings'']) = [newBinding] \<and>
           event_store_bindings (parse lib content') = [newBinding] \<and>
           entries (lookup (parse lib content') [''migrations'']) = [newMigration] \<and>
           EventStore_migrations (parse lib content') = [newMigration] \<and>
           fst (patchJsonConfigForQueues lib (snd (patchJsonConfigForQueues lib w p content demo_config))
                  p content' demo_config) \<and>
           files (snd (patchJsonConfigForQueues lib (snd (patchJsonConfigForQueues lib w p content demo_config))
                         p content' demo_config))
             = files (snd (patchJsonConfigForQueues lib w p content demo_config))"
proof -
  note law = assms(1) and c = assms(3)
  have doc: "parse lib content = JObj [(''name'', JStr ''x'')]" using assms(4) by (simp add: minimal_doc_def)
  from json_updated_on_fresh_document[OF law assms(2) c doc, of demo_config]
  obtain t' where run: "json_updated lib content demo_config = Inr (Some t')" by auto
  note eff = json_updated_effect[OF law c run]
  have again: "json_updated lib t' demo_config = Inr None" using law c run by (rule json_updated_again)
  have l1: "lookup (parse lib t') [''queues'', ''producers''] = JArr [newProducer demo_config]"
    using eff(2) by (auto simp: doc or_empty_def)
  have l2: "lookup (parse lib t') [''queues'', ''consumers''] = JArr [newConsumer demo_config]"
    using eff(3) by (auto simp: doc or_empty_def)
  have l3: "lookup (parse lib t') [''rules''] = JArr [htmlRule_json]"
    using eff(4) by (auto simp: doc or_empty_def)
  have l4: "lookup (parse lib t') [''durable_objects'', ''bindings''] = JArr [newBinding]"
    using eff(5) by (auto simp: doc or_empty_def)
  have l5: "lookup (parse lib t') [''migrations''] = JArr [newMigration]"
    using eff(6) by (auto simp: doc or_empty_def)
  have first: "patchJsonConfigForQueues lib w p content demo_config
      = (True, say Success ''Updated wrangler config with queue configuration'' (w\<lparr>files := (files w)(p \<mapsto> t')\<rparr>))"
    using run assms(5) by (simp add: patchJsonConfigForQueues_def writeFile_def)
  have second: "patchJsonConfigForQueues lib w' p t' demo_config
      = (True, say Warn (''Queue '' @ [CHR 0x22] @ ''demo-queue'' @ [CHR 0x22] @ '' already exists in config'') w')" for w'
    using again by (simp add: patchJsonConfigForQueues_def demo_config_def)
  have A: "fst (patchJsonConfigForQueues lib w p content demo_config) \<and>
           files (snd (patchJsonConfigForQueues lib w p content demo_config)) p = Some t'"
    unfolding first by (simp add: say_def)
  have B: "producers_of (parse lib t')
             = [JObj [(''queue'', JStr ''demo-queue''), (''binding'', JStr ''DEMO_QUEUE'')]] \<and>
           consumers_of (parse lib t')
             = [JObj [(''queue'', JStr ''demo-queue''), (''max_batch_size'', JNum 4),
                      (''max_batch_timeout'', JNum 3), (''max_retries'', JNum 3)]] \<and>
           entries (lookup (parse lib t') [''rules'']) = [htmlRule_json] \<and>
           html_rules (parse lib t') = [htmlRule_json] \<and>
           entries (lookup (parse lib t') [''durable_objects'', ''bindings'']) = [newBinding] \<and>
           event_store_bindings (parse lib t') = [newBinding] \<and>
           entries (lookup (parse lib t') [''migrations'']) = [newMigration] \<and>
           EventStore_migrations (parse lib t') = [newMigration]"
    by (simp add: producers_of_def consumers_of_def html_rules_def event_store_bindings_def
          EventStore_migrations_def matching_def entries_def l1 l2 l3 l4 l5 new_entries_match
          newProducer_def newConsumer_def demo_config_def default_to_def)
  have C: "fst (patchJsonConfigForQueues lib (snd (patchJsonConfigForQueues lib w p content demo_config))
                  p t' demo_config) \<and>
           files (snd (patchJsonConfigForQueues lib (snd (patchJsonConfigForQueues lib w p content demo_config))
                         p t' demo_config))
             = files (snd (patchJsonConfigForQueues lib w p content demo_config))"
    unfolding second by (simp add: say_def)
  from A B C show ?thesis by (intro exI[of _ t']) simp
qed

theorem minimal_document_patch_witness:
  "\<exists>content'.
     fst (patchJsonConfigForQueues ref_jsonc minimal_world ''wrangler.jsonc'' (enc minimal_doc) demo_config) \<and>
     files (snd (patchJsonConfigForQueues ref_jsonc minimal_world ''wrangler.jsonc'' (enc minimal_doc) demo_config))
       ''wrangler.jsonc'' = Some content' \<and>
     producers_of (parse ref_jsonc content')
       = [JObj [(''queue'', JStr ''demo-queue''), (''binding'', JStr ''DEMO_QUEUE'')]] \<and>
     consumers_of (parse ref_jsonc content')
       = [JObj [(''queue'', JStr ''demo-queue''), (''max_batch_size'', JNum 4),
                (''max_batch_timeout'', JNum 3), (''max_retries'', JNum 3)]] \<and>
     html_rules (parse ref_jsonc content') = [htmlRule_json] \<and>
     event_store_bindings (parse ref_jsonc content') = [newBinding] \<and>
     EventStore_migrations (parse ref_jsonc content') = [newMigration]"
proof -
  have p: "parse ref_jsonc (enc minimal_doc) = minimal_doc" by (simp add: ref_jsonc_def dec_enc)
  have u: "''wrangler.jsonc'' \<notin> unwritable minimal_world" by (simp add: minimal_world_def empty_world_def)
  from minimal_document_patch [OF ref_lawful ref_modify_succeeds minimal_doc_in_ref_docs p u]
  show ?thesis by blast
qed

subsection \<open>The tables of a patched TOML text\<close>





















































subsection \<open>Uniqueness bounds\<close>















subsection \<open>Failures of the patcher\<close>

lemma patch_false_iff_raises:
  "fst (patchWranglerConfigForQueues lib w p config) \<longleftrightarrow> \<not> patch_raises lib w p config"
  by (auto simp: patchWranglerConfigForQueues_def patch_raises_def patchTomlConfigForQueues_def
      patchJsonConfigForQueues_def split: sum.splits option.splits)

lemma patch_raises_files:
  "patch_raises lib w p config \<Longrightarrow> files (snd (patchWranglerConfigForQueues lib w p config)) = files w"
  by (auto simp: patchWranglerConfigForQueues_def patch_raises_def patchTomlConfigForQueues_def
      patchJsonConfigForQueues_def say_def split: sum.splits option.splits if_splits)

text \<open>
  C5. The patcher returns a boolean on every input (an exception is a value inside it and
  never its result); it returns false exactly when the read, an operation on the parsed
  document, a library edit or the write raises, and then leaves the files as they were.
  Whenever the patch step of a primitive returns false, the existing-project flow and the
  new-project flow end the process with exit code 1.
\<close>

theorem patch_error_is_fatal:
  "(patch_raises lib w p config \<longrightarrow>
      \<not> fst (patchWranglerConfigForQueues lib w p config) \<and>
      files (snd (patchWranglerConfigForQueues lib w p config)) = files w) \<and>
   (\<not> fst (patchWranglerConfigForQueues lib w p config) \<longrightarrow> patch_raises lib w p config) \<and>
   (patchConfig primitive = Some patch \<and> wranglerConfigPath ctx = Some p \<and> p \<noteq> [] \<and>
    \<not> fst (patch e (say Step (''Adding '' @ name primitive @ '' configuration...'') w) p pconfig)
      \<longrightarrow> fst (runGenericExistingFlow primitive pconfig ctx e w) = Exit 1) \<and>
   (patchConfig primitive = Some patch \<and> \<not> falsy (pconfig ''projectName'') \<and>
    \<not> pathExists w (path_join (cwd e) (field pconfig ''projectName'')) \<and>
    scaffold e (path_join (cwd e) (field pconfig ''projectName''))
      (say Step ''Creating Worker project with create-cloudflare...'' w) = Some w2 \<and>
    find_generated_config (say Success ''Base Worker project created'' w2)
      (path_join (cwd e) (field pconfig ''projectName'')) = (Some generated, w3) \<and>
    \<not> fst (patch e (say Step (''Adding '' @ name primitive @ '' configuration...'') w3) generated pconfig)
      \<longrightarrow> fst (runGenericNewFlow primitive pconfig ctx e w) = Exit 1)"
proof (intro conjI impI)
  assume "patch_raises lib w p config"
  then show "\<not> fst (patchWranglerConfigForQueues lib w p config)"
    and "files (snd (patchWranglerConfigForQueues lib w p config)) = files w"
    by (simp_all add: patch_false_iff_raises patch_raises_files)
next
  assume "\<not> fst (patchWranglerConfigForQueues lib w p config)"
  then show "patch_raises lib w p config" by (simp add: patch_false_iff_raises)
next
  assume "patchConfig primitive = Some patch \<and> wranglerConfigPath ctx = Some p \<and> p \<noteq> [] \<and>
    \<not> fst (patch e (say Step (''Adding '' @ name primitive @ '' configuration...'') w) p pconfig)"
  then show "fst (runGenericExistingFlow primitive pconfig ctx e w) = Exit 1"
    by (auto simp: runGenericExistingFlow_def patch_step_def split: prod.splits bool.splits)
next
  assume "patchConfig primitive = Some patch \<and> \<not> falsy (pconfig ''projectName'') \<and>
    \<not> pathExists w (path_join (cwd e) (field pconfig ''projectName'')) \<and>
    scaffold e (path_join (cwd e) (field pconfig ''projectName''))
      (say Step ''Creating Worker project with create-cloudflare...'' w) = Some w2 \<and>
    find_generated_config (say Success ''Base Worker project created'' w2)
      (path_join (cwd e) (field pconfig ''projectName'')) = (Some generated, w3) \<and>
    \<not> fst (patch e (say Step (''Adding '' @ name primitive @ '' configuration...'') w3) generated pconfig)"
  then show "fst (runGenericNewFlow primitive pconfig ctx e w) = Exit 1"
    by (auto simp: runGenericNewFlow_def patch_step_def Let_def split: prod.splits bool.splits)
qed

lemma stale_patch_raises:
  "patch_raises ref_jsonc (say Step ''Adding Queues configuration...'' empty_world) ''/app/wrangler.jsonc''
     \<lparr> queueName = ''demo-queue'', bindingName = ''DEMO_QUEUE'',
       maxBatchSize = Some 4, maxBatchTimeout = Some 3, maxRetries = Some 3 \<rparr>"
  by (simp add: patch_raises_def readFile_def say_def empty_world_def)

theorem patch_error_is_fatal_witness:
  "patch_raises ref_jsonc (say Step ''Adding Queues configuration...'' empty_world) ''/app/wrangler.jsonc''
     \<lparr> queueName = ''demo-queue'', bindingName = ''DEMO_QUEUE'',
       maxBatchSize = Some 4, maxBatchTimeout = Some 3, maxRetries = Some 3 \<rparr> \<and>
   \<not> fst (queues_patchConfig demo_env (say Step ''Adding Queues configuration...'' empty_world)
            ''/app/wrangler.jsonc'' queue_answers) \<and>
   fst (runGenericExistingFlow QueuesPrimitive queue_answers stale_context demo_env empty_world) = Exit 1 \<and>
   fst (runGenericNewFlow QueuesPrimitive queue_answers stale_context empty_config_env empty_world) = Exit 1"
proof -
  note r = stale_patch_raises
  have n: "fst (runGenericNewFlow QueuesPrimitive queue_answers stale_context empty_config_env empty_world) = Exit 1"
    by code_simp
  have f: "queues_patchConfig demo_env (say Step ''Adding Queues configuration...'' empty_world)
             ''/app/wrangler.jsonc'' queue_answers
           = patchWranglerConfigForQueues ref_jsonc (say Step ''Adding Queues configuration...'' empty_world)
               ''/app/wrangler.jsonc''
               \<lparr> queueName = ''demo-queue'', bindingName = ''DEMO_QUEUE'',
                 maxBatchSize = Some 4, maxBatchTimeout = Some 3, maxRetries = Some 3 \<rparr>"
    by (simp add: queues_patchConfig_def demo_env_def queue_answers_def field_def)
  note t1 = patch_error_is_fatal [where lib = ref_jsonc
      and w = "say Step ''Adding Queues configuration...'' empty_world" and p = "''/app/wrangler.jsonc''"
      and config = "\<lparr> queueName = ''demo-queue'', bindingName = ''DEMO_QUEUE'',
         maxBatchSize = Some 4, maxBatchTimeout = Some 3, maxRetries = Some 3 \<rparr>"]
  have nf: "\<not> fst (queues_patchConfig demo_env (say Step ''Adding Queues configuration...'' empty_world)
            ''/app/wrangler.jsonc'' queue_answers)"
    unfolding f using t1 r by blast
  have pc: "patchConfig QueuesPrimitive = Some queues_patchConfig" "name QueuesPrimitive = ''Queues''"
    "wranglerConfigPath stale_context = Some ''/app/wrangler.jsonc''"
    by (simp_all add: QueuesPrimitive_def stale_context_def)
  note t2 = patch_error_is_fatal [where primitive = QueuesPrimitive and patch = queues_patchConfig
      and ctx = stale_context and e = demo_env and w = empty_world and p = "''/app/wrangler.jsonc''"
      and pconfig = queue_answers]
  have "fst (runGenericExistingFlow QueuesPrimitive queue_answers stale_context demo_env empty_world) = Exit 1"
    using t2 nf pc by simp
  with r nf n show ?thesis by blast
qed

subsection \<open>The deployment question\<close>

lemma console_say: "console (say l m w) = console w @ [(l, m)]"
  by (simp add: say_def)

lemma console_say_all: "console (say_all ms w) = console w @ map (Pair Plain) ms"
  unfolding say_all_def by (induction ms arbitrary: w) (simp_all add: console_say)

text \<open>
  C10. A cancelled deployment question is an answer of no: \<open>promptDeploy\<close> returns false;
  the deployment step of the new-project flow, and the whole flow for each registered
  primitive, does with the cancellation what it does with the answer no; the flow never
  ends as a user cancellation (exit code 0 by \<^verbatim>\<open>process.exit\<close>), and when it gets past
  file generation it returns normally with the local-development instructions printed.
\<close>

theorem cancelled_deploy_question_is_no:
  assumes "answer_deploy e = None"
  shows "promptDeploy e = False \<and>
         new_flow_deploy primitive config e w dir project
           = new_flow_deploy primitive config (e\<lparr>answer_deploy := Some False\<rparr>) w dir project \<and>
         (primitive \<in> set (getAll registry) \<longrightarrow>
            runGenericNewFlow primitive config ctx e w
              = runGenericNewFlow primitive config ctx (e\<lparr>answer_deploy := Some False\<rparr>) w) \<and>
         fst (runGenericNewFlow primitive config ctx e w) \<noteq> Exit 0 \<and>
         (fst (runGenericNewFlow primitive config ctx e w) = Returned \<longrightarrow>
            (Plain, ''\<newline>For local development:'') \<in> set (console (snd (runGenericNewFlow primitive config ctx e w))))"
proof -
  have no: "promptDeploy e = False" using assms by (simp add: promptDeploy_def)
  have same: "new_flow_deploy p config e w' dir' project'
      = new_flow_deploy p config (e\<lparr>answer_deploy := Some False\<rparr>) w' dir' project'" for p w' dir' project'
    using assms by (simp add: new_flow_deploy_def promptDeploy_def)
  have pq: "patch_step QueuesPrimitive config (e\<lparr>answer_deploy := Some False\<rparr>) = patch_step QueuesPrimitive config e"
    by (intro ext) (simp add: patch_step_def QueuesPrimitive_def queues_patchConfig_def cong: prod.case_cong)
  have gq: "generateFiles QueuesPrimitive (e\<lparr>answer_deploy := Some False\<rparr>) = generateFiles QueuesPrimitive e"
    by (intro ext) (simp add: QueuesPrimitive_def queues_generateFiles_def Let_def cong: sum.case_cong)
  have pw: "patch_step WorkerOnlyPrimitive config (e\<lparr>answer_deploy := Some False\<rparr>) = patch_step WorkerOnlyPrimitive config e"
    by (intro ext) (simp add: patch_step_def WorkerOnlyPrimitive_def)
  have gw: "generateFiles WorkerOnlyPrimitive (e\<lparr>answer_deploy := Some False\<rparr>) = generateFiles WorkerOnlyPrimitive e"
    by (intro ext) (simp add: WorkerOnlyPrimitive_def)
  have sc: "scaffold (e\<lparr>answer_deploy := Some False\<rparr>) = scaffold e"
    by (intro ext) (simp add: scaffold_def)
  have cw: "cwd (e\<lparr>answer_deploy := Some False\<rparr>) = cwd e" by simp
  have q: "runGenericNewFlow QueuesPrimitive config ctx e w
           = runGenericNewFlow QueuesPrimitive config ctx (e\<lparr>answer_deploy := Some False\<rparr>) w"
    unfolding runGenericNewFlow_def pq gq sc cw same[symmetric] ..
  have wo: "runGenericNewFlow WorkerOnlyPrimitive config ctx e w
           = runGenericNewFlow WorkerOnlyPrimitive config ctx (e\<lparr>answer_deploy := Some False\<rparr>) w"
    unfolding runGenericNewFlow_def pw gw sc cw same[symmetric] ..
  have reg: "getAll registry = [QueuesPrimitive, WorkerOnlyPrimitive]"
    by (simp add: registry_def register_def getAll_def QueuesPrimitive_def WorkerOnlyPrimitive_def)
  have eq: "runGenericNewFlow primitive config ctx e w
           = runGenericNewFlow primitive config ctx (e\<lparr>answer_deploy := Some False\<rparr>) w"
    if "primitive \<in> set (getAll registry)"
    using that q wo unfolding reg by auto
  have local: "(Plain, ''\<newline>For local development:'') \<in> set (console (new_flow_deploy primitive config e w' dir' project'))"
    for w' dir' project'
    using no by (simp add: new_flow_deploy_def Let_def console_say console_say_all
        split: option.splits)
  have out: "fst (runGenericNewFlow primitive config ctx e w) \<noteq> Exit 0"
    by (auto simp: runGenericNewFlow_def Let_def split: option.splits prod.splits bool.splits sum.splits)
  have ret: "(Plain, ''\<newline>For local development:'') \<in> set (console (snd (runGenericNewFlow primitive config ctx e w)))"
    if "fst (runGenericNewFlow primitive config ctx e w) = Returned"
    using that local
    by (auto simp: runGenericNewFlow_def Let_def split: option.splits prod.splits bool.splits sum.splits if_splits)
  from no same eq out ret show ?thesis by blast
qed

lemma demo_new_flow_returns:
  "fst (runGenericNewFlow QueuesPrimitive queue_answers (detectProjectContext demo_env empty_world) demo_env empty_world)
     = Returned"
  by code_simp

theorem cancelled_deploy_question_is_no_witness:
  "answer_deploy demo_env = None \<and>
   promptDeploy demo_env = False \<and>
   fst (runGenericNewFlow QueuesPrimitive queue_answers (detectProjectContext demo_env empty_world) demo_env empty_world)
     = Returned \<and>
   (Plain, ''\<newline>For local development:'')
     \<in> set (console (snd (runGenericNewFlow QueuesPrimitive queue_answers
                            (detectProjectContext demo_env empty_world) demo_env empty_world)))"
proof -
  have a: "answer_deploy demo_env = None" by (simp add: demo_env_def)
  from cancelled_deploy_question_is_no [OF a, where primitive = QueuesPrimitive and config = queue_answers
      and ctx = "detectProjectContext demo_env empty_world" and w = empty_world] a demo_new_flow_returns
  show ?thesis by blast
qed

text \<open>
  C6 fails on the code. New-project flow, queue primitive, the deployment question
  answered yes, the deploy tool failing: the flow returns normally, prints
  \<open>Deployment failed\<close> and then the primitive's success message all the same; the
  local-development instructions are not printed.
\<close>

theorem failed_deploy_prints_success_message:
  "promptDeploy failing_deploy_env \<and> wrangler_deploy failing_deploy_env = Some ''exit code 1'' \<and>
   fst (runGenericNewFlow QueuesPrimitive queue_answers (detectProjectContext failing_deploy_env empty_world)
          failing_deploy_env empty_world) = Returned \<and>
   drop 13 (console (snd (runGenericNewFlow QueuesPrimitive queue_answers
                            (detectProjectContext failing_deploy_env empty_world) failing_deploy_env empty_world)))
     = [(Error, ''Deployment failed''),
        (Info, ''You can deploy later by running: cd my-queue-worker && npx wrangler deploy''),
        (Plain, ''\<newline>Your queue worker is live!''),
        (Plain, ''View your deployment at: https://dash.cloudflare.com'')] \<and>
   (Plain, ''\<newline>For local development:'')
     \<notin> set (console (snd (runGenericNewFlow QueuesPrimitive queue_answers
                            (detectProjectContext failing_deploy_env empty_world) failing_deploy_env empty_world)))"
  by code_simp

text \<open>
  C4 fails on the code. \<open>clementine --add\<close> in an existing project whose entry file
  \<open>src/index.ts\<close> is there: the run ends with exit code 0, the entry file holds the
  generated worker code, no warning is printed, and the run prints that the existing
  \<open>index.ts\<close> was not modified.
\<close>

theorem existing_entry_file_is_overwritten:
  "files project_world ''/app/src/index.ts'' = Some ''export default { fetch() {} };'' \<and>
   fst (main registry (Inr add_args) demo_env project_world) = 0 \<and>
   files (snd (main registry (Inr add_args) demo_env project_world)) ''/app/src/index.ts''
     = Some ''interface Env { DEMO_QUEUE: Queue; }'' \<and>
   filter (\<lambda>line. fst line = Warn) (console (snd (main registry (Inr add_args) demo_env project_world))) = [] \<and>
   (Plain, ''Your existing index.ts was not modified. You need to integrate the queue code:'')
     \<in> set (console (snd (main registry (Inr add_args) demo_env project_world)))"
  by code_simp

subsection \<open>Flags of the command line\<close>

lemma detect_after_say: "isWorkerProject (detectProjectContext e (say l m w)) = isWorkerProject (detectProjectContext e w)"
  by (simp add: detectProjectContext_def pathExists_def say_def Let_def)

text \<open>
  C8, as stated, fails: with \<open>--help\<close> on the command line, \<open>--new\<close> and \<open>--add\<close> together end
  with exit code 0.
\<close>

theorem help_wins_over_conflicting_flags:
  "flag_add add_new_help_args \<and> flag_new add_new_help_args \<and>
   fst (main registry (Inr add_new_help_args) demo_env empty_world) = 0"
  by (simp add: main_def add_new_help_args_def add_new_args_def add_args_def)

text \<open>
  C8, as the code has it. On a command line without \<open>--help\<close> and \<open>--version\<close>: with both
  \<open>--new\<close> and \<open>--add\<close> the process ends with exit code 1, whatever the collaborators would
  answer and with the files and directories as they were; with \<open>--add\<close> and no existing
  project detected it ends with exit code 1 with the files and directories as they were.
\<close>

theorem flag_errors_are_fatal:
  assumes "\<not> flag_help a" and "\<not> flag_version a"
  shows "(flag_add a \<and> flag_new a \<longrightarrow>
            fst (main reg (Inr a) e w) = 1 \<and>
            files (snd (main reg (Inr a) e w)) = files w \<and>
            dirs (snd (main reg (Inr a) e w)) = dirs w \<and>
            main reg (Inr a) e w = main reg (Inr a) e' w) \<and>
         (flag_add a \<and> \<not> isWorkerProject (detectProjectContext e w) \<longrightarrow>
            fst (main reg (Inr a) e w) = 1 \<and>
            files (snd (main reg (Inr a) e w)) = files w \<and>
            dirs (snd (main reg (Inr a) e w)) = dirs w)"
proof (intro conjI impI)
  assume both: "flag_add a \<and> flag_new a"
  have run: "main reg (Inr a) e'' w =
      (1, if (case positionals a of [] \<Rightarrow> [] | c # cs \<Rightarrow> c) = [] \<or> (case positionals a of [] \<Rightarrow> [] | c # cs \<Rightarrow> c) = ''queues''
          then say Error ''Cannot use both --add and --new flags'' (say Intro ''Clementine'' w)
          else say Info (''Run '' @ [CHR 0x22] @ ''clementine --help'' @ [CHR 0x22] @ '' for usage'')
                 (say Error (''Unknown command: '' @ (case positionals a of [] \<Rightarrow> [] | c # cs \<Rightarrow> c))
                   (say Intro ''Clementine'' w)))" for e''
    using assms both by (simp add: main_def init_def initQueues_def Let_def)
  show "fst (main reg (Inr a) e w) = 1" by (simp add: run)
  show "files (snd (main reg (Inr a) e w)) = files w" by (simp add: run say_def)
  show "dirs (snd (main reg (Inr a) e w)) = dirs w" by (simp add: run say_def)
  show "main reg (Inr a) e w = main reg (Inr a) e' w" by (simp only: run)
next
  assume add: "flag_add a \<and> \<not> isWorkerProject (detectProjectContext e w)"
  then have nw: "\<not> isWorkerProject (detectProjectContext e (say Intro ''Clementine'' w))"
    by (simp add: detect_after_say)
  have "fst (main reg (Inr a) e w) = 1 \<and> files (snd (main reg (Inr a) e w)) = files w
        \<and> dirs (snd (main reg (Inr a) e w)) = dirs w"
    using assms add nw
    by (auto simp: main_def init_def initQueues_def Let_def say_def split: option.splits)
  then show "fst (main reg (Inr a) e w) = 1" and "files (snd (main reg (Inr a) e w)) = files w"
    and "dirs (snd (main reg (Inr a) e w)) = dirs w"
    by simp_all
qed

theorem flag_errors_are_fatal_witness:
  "\<not> flag_help add_new_args \<and> \<not> flag_version add_new_args \<and> flag_add add_new_args \<and> flag_new add_new_args \<and>
   fst (main registry (Inr add_new_args) demo_env project_world) = 1 \<and>
   files (snd (main registry (Inr add_new_args) demo_env project_world)) = files project_world \<and>
   \<not> isWorkerProject (detectProjectContext demo_env empty_world) \<and>
   fst (main registry (Inr add_args) demo_env empty_world) = 1 \<and>
   files (snd (main registry (Inr add_args) demo_env empty_world)) = files empty_world"
proof -
  have h: "\<not> flag_help add_new_args" "\<not> flag_version add_new_args" "flag_add add_new_args" "flag_new add_new_args"
    "\<not> flag_help add_args" "\<not> flag_version add_args" "flag_add add_args"
    by (simp_all add: add_new_args_def add_args_def)
  have n: "\<not> isWorkerProject (detectProjectContext demo_env empty_world)"
    by (simp add: detectProjectContext_def pathExists_def empty_world_def Let_def)
  from flag_errors_are_fatal [OF h(1,2), of registry demo_env project_world]
    flag_errors_are_fatal [OF h(5,6), of registry demo_env empty_world] h n
  show ?thesis by blast
qed

end
